theory Spec2Isabelle
  imports Complex_Main
begin

section \<open>The JavaScript values the dashboard script computes with\<close>

text \<open>
  The script \<^verbatim>\<open>static/js/charts.js\<close> receives the body of \<^verbatim>\<open>GET /sensor_data\<close> as an
  arbitrary parsed JSON value and reads fields off it, so the embedding starts with the
  values of the language and the conversions the script applies to them
  (ECMA-262: ToBoolean, ToNumber, ToString, the relational operators,
  \<^verbatim>\<open>Number.prototype.toFixed\<close>).

  A Number is an IEEE-754 double. A finite double is modelled by the rational it denotes
  (\<open>Fin q\<close>); the two zeros are identified, which no operation of the script can
  distinguish. Comparison of doubles is comparison of the rationals, and
  \<open>round_double\<close> is the rounding of a real to the nearest double that gives a
  decimal literal such as \<^verbatim>\<open>0.7\<close> its value.
\<close>

datatype jsnum = NaN | PInf | NInf | Fin rat

datatype jsval =
    JUndefined
  | JNull
  | JBool bool
  | JNum jsnum
  | JStr string
  | JArr "jsval list"
  | JObj "(string \<times> jsval) list"

text \<open>
  \<open>JObj\<close> lists the own properties of an object created by \<^verbatim>\<open>JSON.parse\<close> or by an
  object literal; strings are sequences of bytes (UTF-8). The exceptions the script can
  meet:
\<close>

datatype error = TypeError | RangeError | SyntaxError | NetworkError

definition bindE :: "error + 'a \<Rightarrow> ('a \<Rightarrow> error + 'b) \<Rightarrow> error + 'b" where
  "bindE m f = (case m of Inl e \<Rightarrow> Inl e | Inr v \<Rightarrow> f v)"

subsection \<open>Rounding to a double\<close>

function ndigits :: "int \<Rightarrow> int \<Rightarrow> int" where
  "ndigits b n = (if n \<le> 0 \<or> b < 2 then 0 else 1 + ndigits b (n div b))"
  by pat_completeness auto
termination
  by (relation "measure (\<lambda>(b, n). nat n)")
     (auto simp: pos_imp_zdiv_nonneg_iff intro!: int_div_less_self)

declare ndigits.simps [simp del]

text \<open>\<open>ilog b q\<close> is the exponent \<open>e\<close> with \<open>b ^ e \<le> q < b ^ (e + 1)\<close>, for \<open>0 < q\<close>.\<close>

definition ilog :: "int \<Rightarrow> rat \<Rightarrow> int" where
  "ilog b q =
     (if 1 \<le> q then ndigits b \<lfloor>q\<rfloor> - 1
      else - ndigits b (\<lceil>1 / q\<rceil> - 1))"

definition round_half_even :: "rat \<Rightarrow> int" where
  "round_half_even x =
     (let f = \<lfloor>x\<rfloor>; r = x - of_int f
      in if r < 1 / 2 then f else if 1 / 2 < r then f + 1 else if even f then f else f + 1)"

text \<open>
  Binary64, round to nearest, ties to even: 53 significant bits, least exponent -1022
  (below it the spacing stays \<open>2 ^ -1074\<close>), overflow to infinity from \<open>2 ^ 1024\<close>.
\<close>

definition round_double :: "rat \<Rightarrow> jsnum" where
  "round_double q =
     (if q = 0 then Fin 0
      else let e = max (ilog 2 \<bar>q\<bar>) (- 1022) - 52;
               v = of_int (round_half_even (\<bar>q\<bar> / 2 powi e)) * 2 powi e
           in if v = 0 then Fin 0
              else if 1024 \<le> ilog 2 v then (if q < 0 then NInf else PInf)
              else Fin (if q < 0 then - v else v))"

subsection \<open>ToBoolean, the nullish test and the comparisons of numbers\<close>

fun truthy :: "jsval \<Rightarrow> bool" where
  "truthy JUndefined = False"
| "truthy JNull = False"
| "truthy (JBool b) = b"
| "truthy (JNum NaN) = False"
| "truthy (JNum (Fin q)) = (q \<noteq> 0)"
| "truthy (JNum _) = True"
| "truthy (JStr s) = (s \<noteq> [])"
| "truthy (JArr _) = True"
| "truthy (JObj _) = True"

text \<open>\<^verbatim>\<open>a || b\<close> and \<^verbatim>\<open>a ?? b\<close> on values already computed (the right operands of the
  script are literals).\<close>

definition js_or :: "jsval \<Rightarrow> jsval \<Rightarrow> jsval" where
  "js_or a b = (if truthy a then a else b)"

definition nullish :: "jsval \<Rightarrow> bool" where
  "nullish v \<longleftrightarrow> v = JUndefined \<or> v = JNull"

definition js_coalesce :: "jsval \<Rightarrow> jsval \<Rightarrow> jsval" where
  "js_coalesce a b = (if nullish a then b else a)"

text \<open>Number::lessThan; a comparison with \<open>NaN\<close> is undefined, which every relational
  operator turns into \<open>false\<close>.\<close>

fun num_lt :: "jsnum \<Rightarrow> jsnum \<Rightarrow> bool" where
  "num_lt NaN _ = False"
| "num_lt _ NaN = False"
| "num_lt (Fin x) (Fin y) = (x < y)"
| "num_lt NInf NInf = False"
| "num_lt NInf _ = True"
| "num_lt _ NInf = False"
| "num_lt PInf _ = False"
| "num_lt _ PInf = True"

definition num_gt :: "jsnum \<Rightarrow> jsnum \<Rightarrow> bool" where
  "num_gt a b = num_lt b a"

definition num_ge :: "jsnum \<Rightarrow> jsnum \<Rightarrow> bool" where
  "num_ge a b \<longleftrightarrow> a \<noteq> NaN \<and> b \<noteq> NaN \<and> \<not> num_lt a b"

subsection \<open>Decimal digits\<close>

definition digit_char :: "int \<Rightarrow> char" where
  "digit_char d = ''0123456789'' ! nat d"

function dec_digits :: "int \<Rightarrow> string" where
  "dec_digits n =
     (if n < 10 then [digit_char n] else dec_digits (n div 10) @ [digit_char (n mod 10)])"
  by pat_completeness auto
termination
  by (relation "measure nat") auto

declare dec_digits.simps [simp del]

definition is_digit :: "char \<Rightarrow> bool" where
  "is_digit c \<longleftrightarrow> 48 \<le> (of_char c :: nat) \<and> (of_char c :: nat) \<le> 57"

definition digit_val :: "char \<Rightarrow> int" where
  "digit_val c = int (of_char c) - 48"

definition digits_val :: "int \<Rightarrow> string \<Rightarrow> int" where
  "digits_val b ds = foldl (\<lambda>a c. b * a + digit_val c) 0 ds"

subsection \<open>StringToNumber\<close>

text \<open>
  The white space a numeric string may begin and end with (StrWhiteSpaceChar: TAB, LF,
  VT, FF, CR, SP, and in UTF-8 U+00A0, U+1680, U+2000 to U+200A, U+2028, U+2029, U+202F,
  U+205F, U+3000, U+FEFF): \<open>ws_len s\<close> is the number of bytes of the white space
  character \<open>s\<close> starts with, 0 if it starts with none.
\<close>

definition ws_len :: "string \<Rightarrow> nat" where
  "ws_len s =
     (let b = map of_char (take 3 s) :: nat list
      in if take 1 b \<in> {[9], [10], [11], [12], [13], [32]} then 1
         else if take 2 b = [194, 160] then 2
         else if b = [225, 154, 128] then 3
         else if take 2 b = [226, 128] \<and> length b = 3 \<and>
                 ((128 \<le> b ! 2 \<and> b ! 2 \<le> 138) \<or> b ! 2 \<in> {168, 169, 175}) then 3
         else if b = [226, 129, 159] then 3
         else if b = [227, 128, 128] then 3
         else if b = [239, 187, 191] then 3
         else 0)"

function skip_ws :: "string \<Rightarrow> string" where
  "skip_ws s = (if ws_len s = 0 then s else skip_ws (drop (ws_len s) s))"
  by pat_completeness auto
termination
proof (relation "measure length")
  fix s :: string
  assume "ws_len s \<noteq> 0"
  then have "s \<noteq> []" by (auto simp: ws_len_def)
  with \<open>ws_len s \<noteq> 0\<close> show "(drop (ws_len s) s, s) \<in> measure length" by simp
qed simp

declare skip_ws.simps [simp del]

text \<open>ExponentPart: \<^verbatim>\<open>e\<close> or \<^verbatim>\<open>E\<close>, an optional sign and at least one digit; the
  result is the exponent and the rest of the string (exponent 0 and the whole string when
  no exponent part stands there).\<close>

definition ExponentPart :: "string \<Rightarrow> int \<times> string" where
  "ExponentPart s =
     (case s of
        [] \<Rightarrow> (0, s)
      | c # r \<Rightarrow>
          if c = CHR ''e'' \<or> c = CHR ''E'' then
            (let neg = (take 1 r = ''-'');
                 r' = (if take 1 r = ''-'' \<or> take 1 r = ''+'' then drop 1 r else r);
                 ds = takeWhile is_digit r'
             in if ds = [] then (0, s)
                else (if neg then - digits_val 10 ds else digits_val 10 ds,
                      dropWhile is_digit r'))
          else (0, s))"

text \<open>StrUnsignedDecimalLiteral: \<^verbatim>\<open>Infinity\<close> (the value \<open>None\<close>), or digits with an
  optional fraction and exponent; the mathematical value is exact.\<close>

definition StrUnsignedDecimalLiteral :: "string \<Rightarrow> (rat option \<times> string) option" where
  "StrUnsignedDecimalLiteral s =
     (if take 8 s = ''Infinity'' then Some (None, drop 8 s)
      else
        let ip = takeWhile is_digit s;
            r1 = dropWhile is_digit s;
            dot = (take 1 r1 = ''.'');
            fp = (if dot then takeWhile is_digit (drop 1 r1) else []);
            r2 = (if dot then dropWhile is_digit (drop 1 r1) else r1)
        in if ip = [] \<and> fp = [] then None
           else
             let (e, rest) = ExponentPart r2
             in Some (Some (of_int (digits_val 10 (ip @ fp)) * 10 powi (e - int (length fp))),
                      rest))"

definition StrDecimalLiteral :: "string \<Rightarrow> (bool \<times> rat option \<times> string) option" where
  "StrDecimalLiteral s =
     (let neg = (take 1 s = ''-'');
          r = (if take 1 s = ''-'' \<or> take 1 s = ''+'' then drop 1 s else s)
      in map_option (\<lambda>(v, rest). (neg, v, rest)) (StrUnsignedDecimalLiteral r))"

text \<open>The digit a character stands for in a radix up to 16, or -1.\<close>

definition radix_digit :: "int \<Rightarrow> char \<Rightarrow> int" where
  "radix_digit b c =
     (let n = int (of_char c);
          v = (if 48 \<le> n \<and> n \<le> 57 then n - 48
               else if 97 \<le> n \<and> n \<le> 102 then n - 87
               else if 65 \<le> n \<and> n \<le> 70 then n - 55
               else - 1)
      in if v < b then v else - 1)"

definition NonDecimalIntegerLiteral :: "string \<Rightarrow> (rat \<times> string) option" where
  "NonDecimalIntegerLiteral s =
     (case s of
        z # x # r \<Rightarrow>
          (let b = (if x = CHR ''x'' \<or> x = CHR ''X'' then 16
                    else if x = CHR ''o'' \<or> x = CHR ''O'' then 8
                    else if x = CHR ''b'' \<or> x = CHR ''B'' then 2
                    else 0 :: int);
               ds = takeWhile (\<lambda>c. 0 \<le> radix_digit b c) r
           in if z \<noteq> CHR ''0'' \<or> b = 0 \<or> ds = [] then None
              else Some (of_int (foldl (\<lambda>a c. b * a + radix_digit b c) 0 ds),
                         dropWhile (\<lambda>c. 0 \<le> radix_digit b c) r))
      | _ \<Rightarrow> None)"

text \<open>
  StringToNumber: white space is stripped at both ends, the empty string is 0, a string
  that is not a StrNumericLiteral is \<open>NaN\<close>, and the value of a literal is rounded to
  a double.
\<close>

definition StringToNumber :: "string \<Rightarrow> jsnum" where
  "StringToNumber str =
     (let s = skip_ws str
      in if s = [] then Fin 0
         else
           case NonDecimalIntegerLiteral s of
             Some (m, rest) \<Rightarrow> if skip_ws rest = [] then round_double m else NaN
           | None \<Rightarrow>
               (case StrDecimalLiteral s of
                  None \<Rightarrow> NaN
                | Some (neg, v, rest) \<Rightarrow>
                    if skip_ws rest \<noteq> [] then NaN
                    else
                      (case v of
                         None \<Rightarrow> if neg then NInf else PInf
                       | Some m \<Rightarrow> round_double (if neg then - m else m))))"

subsection \<open>Number::toString\<close>

text \<open>
  For a positive finite \<open>x\<close> the digits are the integers \<open>s\<close>, \<open>k\<close>, \<open>n\<close> with
  \<open>10 ^ (k - 1) \<le> s < 10 ^ k\<close>, \<open>s * 10 ^ (n - k)\<close> rounding to \<open>x\<close>, and \<open>k\<close> as
  small as possible; of two candidates the one nearer to \<open>x\<close> is taken.
  \<open>try_digits k x\<close> looks for \<open>s\<close> among the two \<open>k\<close>-digit neighbours of \<open>x\<close>.
\<close>

definition try_digits :: "int \<Rightarrow> rat \<Rightarrow> (int \<times> int \<times> int) option" where
  "try_digits k x =
     (let n = ilog 10 x + 1;
          sc = 10 powi (n - k);
          lo = \<lfloor>x / sc\<rfloor>;
          hi = lo + 1;
          ok_lo = (round_double (of_int lo * sc) = Fin x);
          ok_hi = (round_double (of_int hi * sc) = Fin x);
          d_lo = x - of_int lo * sc;
          d_hi = of_int hi * sc - x
      in if ok_lo \<and> (\<not> ok_hi \<or> d_lo < d_hi \<or> (d_lo = d_hi \<and> even lo)) then Some (lo, k, n)
         else if ok_hi then (if hi = 10 ^ nat k then Some (1, 1, n + 1) else Some (hi, k, n))
         else None)"

text \<open>Seventeen digits identify every double, so the search ends at \<open>k = 17\<close>; the
  last branch is never taken for the value of a double.\<close>

function digits_from :: "int \<Rightarrow> rat \<Rightarrow> int \<times> int \<times> int" where
  "digits_from k x =
     (case try_digits k x of
        Some r \<Rightarrow> r
      | None \<Rightarrow>
          if k < 17 then digits_from (k + 1) x
          else (\<lfloor>x / 10 powi (ilog 10 x + 1 - k)\<rfloor>, k, ilog 10 x + 1))"
  by pat_completeness auto
termination
  by (relation "measure (\<lambda>(k, x). nat (17 - k))") auto

declare digits_from.simps [simp del]

definition pos_toString :: "rat \<Rightarrow> string" where
  "pos_toString x =
     (let (s, k, n) = digits_from 1 x;
          ds = dec_digits s
      in if k \<le> n \<and> n \<le> 21 then ds @ replicate (nat (n - k)) CHR ''0''
         else if 0 < n \<and> n \<le> 21 then take (nat n) ds @ ''.'' @ drop (nat n) ds
         else if - 6 < n \<and> n \<le> 0 then ''0.'' @ replicate (nat (- n)) CHR ''0'' @ ds
         else
           let es = (if n - 1 < 0 then ''-'' else ''+'') @ dec_digits \<bar>n - 1\<bar>
           in if k = 1 then ds @ ''e'' @ es
              else take 1 ds @ ''.'' @ drop 1 ds @ ''e'' @ es)"

fun Number_toString :: "jsnum \<Rightarrow> string" where
  "Number_toString NaN = ''NaN''"
| "Number_toString PInf = ''Infinity''"
| "Number_toString NInf = ''-Infinity''"
| "Number_toString (Fin x) =
     (if x = 0 then ''0'' else if x < 0 then ''-'' @ pos_toString (- x) else pos_toString x)"

subsection \<open>ToString and ToNumber\<close>

text \<open>
  An array is converted by \<^verbatim>\<open>Array.prototype.join\<close>. A plain object is converted by
  OrdinaryToPrimitive, which calls the \<^verbatim>\<open>toString\<close> it finds: the one of
  \<^verbatim>\<open>Object.prototype\<close>, unless the object has an own property of that name, which in
  parsed JSON is never a function, and then the conversion throws a TypeError.
\<close>

fun join_commas :: "(error + string) list \<Rightarrow> error + string" where
  "join_commas [] = Inr []"
| "join_commas [x] = x"
| "join_commas (x # y # r) =
     bindE x (\<lambda>a. bindE (join_commas (y # r)) (\<lambda>b. Inr (a @ '','' @ b)))"

fun ToString :: "jsval \<Rightarrow> error + string" where
  "ToString JUndefined = Inr ''undefined''"
| "ToString JNull = Inr ''null''"
| "ToString (JBool b) = Inr (if b then ''true'' else ''false'')"
| "ToString (JNum n) = Inr (Number_toString n)"
| "ToString (JStr s) = Inr s"
| "ToString (JArr xs) =
     join_commas (map (\<lambda>x. if x = JUndefined \<or> x = JNull then Inr [] else ToString x) xs)"
| "ToString (JObj kvs) =
     (if ''toString'' \<in> fst ` set kvs then Inl TypeError else Inr ''[object Object]'')"

fun ToNumber :: "jsval \<Rightarrow> error + jsnum" where
  "ToNumber JUndefined = Inr NaN"
| "ToNumber JNull = Inr (Fin 0)"
| "ToNumber (JBool b) = Inr (Fin (if b then 1 else 0))"
| "ToNumber (JNum n) = Inr n"
| "ToNumber (JStr s) = Inr (StringToNumber s)"
| "ToNumber v = bindE (ToString v) (\<lambda>s. Inr (StringToNumber s))"

text \<open>\<^verbatim>\<open>v > c\<close> and \<^verbatim>\<open>v >= c\<close> against a number \<open>c\<close>: the left operand is converted
  to a number.\<close>

definition js_gt :: "jsval \<Rightarrow> jsnum \<Rightarrow> error + bool" where
  "js_gt v c = bindE (ToNumber v) (\<lambda>n. Inr (num_gt n c))"

definition js_ge :: "jsval \<Rightarrow> jsnum \<Rightarrow> error + bool" where
  "js_ge v c = bindE (ToNumber v) (\<lambda>n. Inr (num_ge n c))"

subsection \<open>Number.prototype.toFixed\<close>

text \<open>
  A RangeError outside 0 to 100 digits; the string of Number::toString for a value that
  is not finite or is at least \<open>10 ^ 21\<close>; otherwise the integer \<open>n\<close> nearest to
  \<open>x * 10 ^ f\<close> (the larger of two), written with a point before its last \<open>f\<close> digits.
\<close>

definition toFixed :: "jsnum \<Rightarrow> int \<Rightarrow> error + string" where
  "toFixed x f =
     (if f < 0 \<or> 100 < f then Inl RangeError
      else
        case x of
          Fin q \<Rightarrow>
            (let s = (if q < 0 then ''-'' else []);
                 a = \<bar>q\<bar>
             in if 10 ^ 21 \<le> a then Inr (s @ Number_toString (Fin a))
                else
                  let n = \<lfloor>a * 10 ^ nat f + 1 / 2\<rfloor>;
                      m = dec_digits n;
                      m' = (if length m \<le> nat f then replicate (nat f + 1 - length m) CHR ''0'' @ m
                            else m)
                  in if f = 0 then Inr (s @ m)
                     else Inr (s @ take (length m' - nat f) m' @ ''.'' @ drop (length m' - nat f) m'))
        | _ \<Rightarrow> Inr (Number_toString x))"

section \<open>The script\<close>

subsection \<open>Configuration and state\<close>

definition HISTORY_MAX :: nat where
  "HISTORY_MAX = 30"

text \<open>The six keys of \<^verbatim>\<open>sensorsHist\<close>, which are also the six fields read off
  \<^verbatim>\<open>data.sensors\<close>.\<close>

datatype channel = Temperature_c | Pressure_bar | Load_pct | Throughput | Vibration | Humidity

fun key :: "channel \<Rightarrow> string" where
  "key Temperature_c = ''temperature_c''"
| "key Pressure_bar = ''pressure_bar''"
| "key Load_pct = ''load_pct''"
| "key Throughput = ''throughput''"
| "key Vibration = ''vibration''"
| "key Humidity = ''humidity''"

definition channels :: "channel list" where
  "channels = [Temperature_c, Pressure_bar, Load_pct, Throughput, Vibration, Humidity]"

text \<open>
  An element of the page, as far as the script writes to it: its text, its class list
  and \<^verbatim>\<open>style.transform\<close>. The document maps an id to its element
  (\<^verbatim>\<open>getElementById\<close>); the slots of the script have distinct ids and none contains
  another, so a write to one leaves the others as they are.
\<close>

record element =
  textContent :: string
  classList :: "string list"
  transform :: string

text \<open>The module state: \<^verbatim>\<open>labels\<close>, \<^verbatim>\<open>sensorsHist\<close>, \<^verbatim>\<open>riskHist\<close>, the
  document, and the lines written by \<^verbatim>\<open>console.error\<close>.\<close>

record page =
  labels :: "string list"
  sensorsHist :: "channel \<Rightarrow> jsnum list"
  riskHist :: "jsnum list"
  document :: "string \<rightharpoonup> element"
  console :: "string list"

definition initial_page :: "(string \<rightharpoonup> element) \<Rightarrow> page" where
  "initial_page d =
     \<lparr>labels = [], sensorsHist = (\<lambda>_. []), riskHist = [], document = d, console = []\<rparr>"

subsection \<open>Utils\<close>

text \<open>\<^verbatim>\<open>arr.push(v); if (arr.length > max) arr.splice(0, arr.length - max)\<close>\<close>

definition pushLimited :: "'a list \<Rightarrow> 'a \<Rightarrow> nat \<Rightarrow> 'a list" where
  "pushLimited arr v limit =
     (let arr' = arr @ [v]
      in if limit < length arr' then drop (length arr' - limit) arr' else arr')"

text \<open>\<^verbatim>\<open>(v===null||v===undefined||Number.isNaN(v)) ? "--" : Number(v).toFixed(d)\<close>\<close>

definition fmt :: "jsval \<Rightarrow> int \<Rightarrow> error + string" where
  "fmt v d =
     (if v = JNull \<or> v = JUndefined \<or> v = JNum NaN then Inr ''--''
      else bindE (ToNumber v) (\<lambda>x. toFixed x d))"

subsection \<open>Reading a property, writing to an element\<close>

text \<open>
  \<^verbatim>\<open>v.k\<close>: a TypeError on \<^verbatim>\<open>undefined\<close> and \<^verbatim>\<open>null\<close>, the own property of an
  object, and \<^verbatim>\<open>undefined\<close> where there is none (the names the script reads are not
  properties of any prototype).
\<close>

fun get_prop :: "jsval \<Rightarrow> string \<Rightarrow> error + jsval" where
  "get_prop JUndefined k = Inl TypeError"
| "get_prop JNull k = Inl TypeError"
| "get_prop (JObj kvs) k = Inr (case map_of kvs k of Some v \<Rightarrow> v | None \<Rightarrow> JUndefined)"
| "get_prop _ k = Inr JUndefined"

text \<open>The conversion of a value assigned to \<^verbatim>\<open>textContent\<close>.\<close>

definition DOMString :: "jsval \<Rightarrow> error + string" where
  "DOMString v = (if nullish v then Inr [] else ToString v)"

definition add_class :: "string \<Rightarrow> string list \<Rightarrow> string list" where
  "add_class c cs = (if c \<in> set cs then cs else cs @ [c])"

definition remove_class :: "string \<Rightarrow> string list \<Rightarrow> string list" where
  "remove_class c cs = filter (\<lambda>x. x \<noteq> c) cs"

text \<open>\<^verbatim>\<open>classList.toggle(c, force)\<close>\<close>

definition toggle_class :: "string \<Rightarrow> bool \<Rightarrow> string list \<Rightarrow> string list" where
  "toggle_class c force cs = (if force then add_class c cs else remove_class c cs)"

definition set_element :: "string \<Rightarrow> element \<Rightarrow> page \<Rightarrow> page" where
  "set_element i el st = st\<lparr>document := (document st)(i \<mapsto> el)\<rparr>"

subsection \<open>KPI update\<close>

definition setKPI :: "string \<Rightarrow> string \<Rightarrow> page \<Rightarrow> page" where
  "setKPI i text st =
     (case document st (i @ ''-value'') of
        None \<Rightarrow> st
      | Some el \<Rightarrow> set_element (i @ ''-value'') (el\<lparr>textContent := text\<rparr>) st)"

fun kpi_id :: "channel \<Rightarrow> string" where
  "kpi_id Temperature_c = ''kpi-temperature''"
| "kpi_id Pressure_bar = ''kpi-pressure''"
| "kpi_id Load_pct = ''kpi-load''"
| "kpi_id Throughput = ''kpi-throughput''"
| "kpi_id Vibration = ''kpi-vibration''"
| "kpi_id Humidity = ''kpi-humidity''"

fun precision :: "channel \<Rightarrow> int" where
  "precision Temperature_c = 1"
| "precision Pressure_bar = 2"
| "precision Load_pct = 0"
| "precision Throughput = 0"
| "precision Vibration = 2"
| "precision Humidity = 0"

subsection \<open>Recommendation\<close>

definition em_dash :: string where
  "em_dash = [CHR 0xE2, CHR 0x80, CHR 0x94]"

definition MSG_DISTANCE :: string where
  "MSG_DISTANCE = ''Show the ArUco marker to enable precise distance monitoring.''"

definition MSG_CRITICAL :: string where
  "MSG_CRITICAL =
     ''CRITICAL '' @ em_dash @ '' Auto-STOP active. Increase distance and lower load.''"

definition MSG_REDUCE :: string where
  "MSG_REDUCE =
     ''WARNING '' @ em_dash @ '' Reduce speed/load to drop temperature/pressure.''"

definition MSG_MAINTAIN :: string where
  "MSG_MAINTAIN =
     ''WARNING '' @ em_dash @ '' Maintain distance and monitor vibration levels.''"

definition MSG_SAFE :: string where
  "MSG_SAFE = ''SAFE '' @ em_dash @ '' Conditions nominal. Maintain current settings.''"

text \<open>
  \<^verbatim>\<open>recommend(s, risk, d)\<close>. The test \<^verbatim>\<open>d==null\<close> holds of \<^verbatim>\<open>null\<close> and
  \<^verbatim>\<open>undefined\<close>; the literal \<^verbatim>\<open>0.7\<close> is the double nearest to 7/10, while
  \<^verbatim>\<open>0.5\<close>, \<^verbatim>\<open>75\<close> and \<^verbatim>\<open>4.0\<close> are doubles themselves; \<^verbatim>\<open>||\<close> evaluates its
  right operand only when the left one is false.
\<close>

definition recommend :: "jsval \<Rightarrow> jsval \<Rightarrow> jsval \<Rightarrow> error + string" where
  "recommend s risk d =
     (if nullish d then Inr MSG_DISTANCE
      else
        bindE (js_ge risk (round_double (7 / 10))) (\<lambda>critical.
          if critical then Inr MSG_CRITICAL
          else
            bindE (js_ge risk (Fin (1 / 2))) (\<lambda>warning.
              if warning then
                bindE (get_prop s ''temperature_c'') (\<lambda>t.
                bindE (js_gt t (Fin 75)) (\<lambda>hot.
                  if hot then Inr MSG_REDUCE
                  else
                    bindE (get_prop s ''pressure_bar'') (\<lambda>p.
                    bindE (js_gt p (Fin 4)) (\<lambda>high.
                      if high then Inr MSG_REDUCE else Inr MSG_MAINTAIN))))
              else Inr MSG_SAFE)))"

subsection \<open>Poll loop\<close>

text \<open>
  A statement of the body of \<^verbatim>\<open>tick\<close> takes the state to the state it leaves and
  the exception it throws, if any: an expression is evaluated, which may throw, and then
  the state is written. \<open>exec\<close> runs statements in order up to the first exception.
\<close>

type_synonym stmt = "page \<Rightarrow> page \<times> error option"

fun exec :: "stmt list \<Rightarrow> stmt" where
  "exec [] st = (st, None)"
| "exec (c # cs) st =
     (case c st of
        (st', None) \<Rightarrow> exec cs st'
      | (st', Some e) \<Rightarrow> (st', Some e))"

text \<open>\<^verbatim>\<open>pushLimited(labels, ts)\<close>, where \<open>ts\<close> is the time string read off the clock.\<close>

definition push_label :: "string \<Rightarrow> stmt" where
  "push_label ts st = (st\<lparr>labels := pushLimited (labels st) ts HISTORY_MAX\<rparr>, None)"

text \<open>\<^verbatim>\<open>Number(v ?? 0)\<close>, and \<^verbatim>\<open>pushLimited(sensorsHist.k, Number(s.k ?? 0))\<close>\<close>

definition Number_or_0 :: "jsval \<Rightarrow> error + jsnum" where
  "Number_or_0 v = ToNumber (js_coalesce v (JNum (Fin 0)))"

definition push_sensor :: "jsval \<Rightarrow> channel \<Rightarrow> stmt" where
  "push_sensor s c st =
     (case bindE (get_prop s (key c)) Number_or_0 of
        Inl e \<Rightarrow> (st, Some e)
      | Inr x \<Rightarrow>
          (st\<lparr>sensorsHist := (sensorsHist st)(c := pushLimited (sensorsHist st c) x HISTORY_MAX)\<rparr>,
           None))"

text \<open>\<^verbatim>\<open>pushLimited(riskHist, risk)\<close>\<close>

definition push_risk :: "jsnum \<Rightarrow> stmt" where
  "push_risk risk st = (st\<lparr>riskHist := pushLimited (riskHist st) risk HISTORY_MAX\<rparr>, None)"

text \<open>\<^verbatim>\<open>setKPI(id, fmt(s.k, d))\<close>: the argument is evaluated before the call.\<close>

definition show_kpi :: "jsval \<Rightarrow> channel \<Rightarrow> stmt" where
  "show_kpi s c st =
     (case bindE (get_prop s (key c)) (\<lambda>v. fmt v (precision c)) of
        Inl e \<Rightarrow> (st, Some e)
      | Inr text \<Rightarrow> (setKPI (kpi_id c) text st, None))"

text \<open>
  Lines 142 to 149. The assignment to \<^verbatim>\<open>textContent\<close> converts its value first, so it
  throws before anything is written. The reset of the transform 120 ms later is a timer
  callback of its own and not part of the tick.
\<close>

definition show_state :: "jsval \<Rightarrow> stmt" where
  "show_state data st =
     (case document st ''system-state'' of
        None \<Rightarrow> (st, None)
      | Some stateEl \<Rightarrow>
          (case bindE (get_prop data ''system_state'') (\<lambda>v.
                  bindE (DOMString (js_or v (JStr ''RUNNING''))) (\<lambda>text. Inr (v, text))) of
             Inl e \<Rightarrow> (st, Some e)
           | Inr (v, text) \<Rightarrow>
               (set_element ''system-state''
                  (stateEl\<lparr>textContent := text,
                     classList :=
                       toggle_class ''status-stopped'' (v = JStr ''STOPPED'')
                         (toggle_class ''status-running'' (v = JStr ''RUNNING'')
                            (classList stateEl)),
                     transform := ''scale(1.04)''\<rparr>) st,
                None)))"

text \<open>Lines 151 to 157. The banner is shown before \<^verbatim>\<open>String(stress.seconds_left)\<close> is
  evaluated.\<close>

definition no_stress :: jsval where
  "no_stress = JObj [(''active'', JBool False), (''seconds_left'', JNum (Fin 0))]"

definition show_stress :: "jsval \<Rightarrow> stmt" where
  "show_stress data st =
     (case get_prop data ''stress'' of
        Inl e \<Rightarrow> (st, Some e)
      | Inr sv \<Rightarrow>
          (let stress = js_or sv no_stress
           in case (document st ''stress-banner'', document st ''stress-timer'') of
                (Some banner, Some timer) \<Rightarrow>
                  (case get_prop stress ''active'' of
                     Inl e \<Rightarrow> (st, Some e)
                   | Inr active \<Rightarrow>
                       if truthy active then
                         (let st1 = set_element ''stress-banner''
                                (banner\<lparr>classList := remove_class ''d-none'' (classList banner)\<rparr>) st
                          in case bindE (get_prop stress ''seconds_left'') ToString of
                               Inl e \<Rightarrow> (st1, Some e)
                             | Inr text \<Rightarrow>
                                 (set_element ''stress-timer'' (timer\<lparr>textContent := text\<rparr>) st1,
                                  None))
                       else
                         (set_element ''stress-banner''
                            (banner\<lparr>classList := add_class ''d-none'' (classList banner)\<rparr>) st,
                          None))
              | _ \<Rightarrow> (st, None)))"

text \<open>\<^verbatim>\<open>if (rec) rec.textContent = recommend(s, risk, dist)\<close>\<close>

definition show_recommendation :: "jsval \<Rightarrow> jsnum \<Rightarrow> jsval \<Rightarrow> stmt" where
  "show_recommendation s risk d st =
     (case document st ''recommendation'' of
        None \<Rightarrow> (st, None)
      | Some el \<Rightarrow>
          (case recommend s (JNum risk) d of
             Inl e \<Rightarrow> (st, Some e)
           | Inr text \<Rightarrow> (set_element ''recommendation'' (el\<lparr>textContent := text\<rparr>) st, None)))"

text \<open>
  The constants \<^verbatim>\<open>s\<close>, \<^verbatim>\<open>risk\<close> and \<^verbatim>\<open>dist\<close> of lines 118 to 120:
  \<^verbatim>\<open>data.sensors||{}\<close>, \<^verbatim>\<open>Number(data.risk ?? 0)\<close>, \<^verbatim>\<open>data.distance_m\<close>.
\<close>

definition frame_locals :: "jsval \<Rightarrow> error + (jsval \<times> jsnum \<times> jsval)" where
  "frame_locals data =
     bindE (get_prop data ''sensors'') (\<lambda>sv.
     bindE (get_prop data ''risk'') (\<lambda>rv.
     bindE (Number_or_0 rv) (\<lambda>risk.
     bindE (get_prop data ''distance_m'') (\<lambda>d.
       Inr (js_or sv (JObj []), risk, d)))))"

text \<open>The statements of lines 123 to 130, which append to the history, and of lines 135
  to 160, which write to the page, in order. The redraw of the two charts between them
  (lines 132 and 133) reads the arrays and writes to a canvas only.\<close>

definition append_stmts :: "string \<Rightarrow> jsval \<Rightarrow> jsnum \<Rightarrow> stmt list" where
  "append_stmts ts s risk = [push_label ts] @ map (push_sensor s) channels @ [push_risk risk]"

definition present_stmts :: "jsval \<Rightarrow> jsval \<Rightarrow> jsnum \<Rightarrow> jsval \<Rightarrow> stmt list" where
  "present_stmts data s risk d =
     map (show_kpi s) channels @
     [show_state data, show_stress data, show_recommendation s risk d]"

definition tick_stmts :: "string \<Rightarrow> jsval \<Rightarrow> jsval \<Rightarrow> jsnum \<Rightarrow> jsval \<Rightarrow> stmt list" where
  "tick_stmts ts data s risk d = append_stmts ts s risk @ present_stmts data s risk d"

text \<open>What the poll receives: \<^verbatim>\<open>fetch\<close> rejects, \<^verbatim>\<open>r.json()\<close> rejects, or the body
  parses to a value.\<close>

datatype response = Rejected | Unparsable | Body jsval

definition tick_try :: "string \<Rightarrow> response \<Rightarrow> stmt" where
  "tick_try ts r st =
     (case r of
        Rejected \<Rightarrow> (st, Some NetworkError)
      | Unparsable \<Rightarrow> (st, Some SyntaxError)
      | Body data \<Rightarrow>
          (case frame_locals data of
             Inl e \<Rightarrow> (st, Some e)
           | Inr (s, risk, d) \<Rightarrow> exec (tick_stmts ts data s risk d) st))"

text \<open>\<^verbatim>\<open>try { ... } catch(e) { console.error("poll failed", e) }\<close>\<close>

definition tick :: "page \<Rightarrow> string \<Rightarrow> response \<Rightarrow> page" where
  "tick st ts r =
     (case tick_try ts r st of
        (st', None) \<Rightarrow> st'
      | (st', Some e) \<Rightarrow> st'\<lparr>console := console st' @ [''poll failed'']\<rparr>)"

text \<open>
  \<^verbatim>\<open>setInterval(tick, POLL_MS); tick()\<close>: the timer calls \<^verbatim>\<open>tick\<close> again whatever
  the last call did. Between its two awaits a tick touches no state, so a run is the
  sequence of its ticks in the order in which their responses arrive, each with the time
  string it reads.
\<close>

definition run_ticks :: "page \<Rightarrow> (string \<times> response) list \<Rightarrow> page" where
  "run_ticks st polls = foldl (\<lambda>st (ts, r). tick st ts r) st polls"

subsection \<open>The invariant of the history\<close>

text \<open>The eight sequences (the labels, the six channels, the risk) have one length, at
  most the capacity.\<close>

definition history_inv :: "page \<Rightarrow> bool" where
  "history_inv st \<longleftrightarrow>
     (\<forall>c. length (sensorsHist st c) = length (labels st)) \<and>
     length (riskHist st) = length (labels st) \<and>
     length (labels st) \<le> HISTORY_MAX"

subsection \<open>Notions the claims are stated with\<close>

text \<open>Two states that differ at most in what was logged.\<close>

definition same_state :: "page \<Rightarrow> page \<Rightarrow> bool" where
  "same_state a b \<longleftrightarrow>
     labels a = labels b \<and> sensorsHist a = sensorsHist b \<and> riskHist a = riskHist b \<and>
     document a = document b"

text \<open>A statement that neither reads nor writes the log.\<close>

definition console_blind :: "stmt \<Rightarrow> bool" where
  "console_blind c \<longleftrightarrow> (\<forall>st x. c (st\<lparr>console := x\<rparr>) = (fst (c st)\<lparr>console := x\<rparr>, snd (c st)))"

text \<open>A statement that, where it completes, completes as well on the page without the
  element of id \<open>i\<close>, and writes the same to every other element.\<close>

definition slot_local :: "string \<Rightarrow> stmt \<Rightarrow> bool" where
  "slot_local i c \<longleftrightarrow>
     (\<forall>st st'. c st = (st', None) \<longrightarrow>
        c (st\<lparr>document := (document st)(i := None)\<rparr>) =
          (st'\<lparr>document := (document st')(i := None)\<rparr>, None))"

text \<open>The page without the element of id \<open>i\<close>.\<close>

definition without_slot :: "string \<Rightarrow> page \<Rightarrow> page" where
  "without_slot i st = st\<lparr>document := (document st)(i := None)\<rparr>"

text \<open>
  The response contract of the telemetry endpoint, following the words of the
  specification (section 6): an object whose \<^verbatim>\<open>sensors\<close> is an object of six numbers
  and whose \<^verbatim>\<open>risk\<close> is a number, with an optional number \<^verbatim>\<open>distance_m\<close>, an
  optional string \<^verbatim>\<open>system_state\<close>, and an optional \<^verbatim>\<open>stress\<close> object of a
  boolean \<^verbatim>\<open>active\<close> and a number \<^verbatim>\<open>seconds_left\<close>.
\<close>

fun is_number :: "jsval option \<Rightarrow> bool" where
  "is_number (Some (JNum n)) = True"
| "is_number _ = False"

fun is_string :: "jsval option \<Rightarrow> bool" where
  "is_string (Some (JStr s)) = True"
| "is_string _ = False"

fun is_boolean :: "jsval option \<Rightarrow> bool" where
  "is_boolean (Some (JBool b)) = True"
| "is_boolean _ = False"

fun spec_sensors_shape :: "jsval option \<Rightarrow> bool" where
  "spec_sensors_shape (Some (JObj kvs)) = list_all (\<lambda>c. is_number (map_of kvs (key c))) channels"
| "spec_sensors_shape _ = False"

fun spec_stress_shape :: "jsval option \<Rightarrow> bool" where
  "spec_stress_shape None = True"
| "spec_stress_shape (Some (JObj kvs)) =
     (is_boolean (map_of kvs ''active'') \<and> is_number (map_of kvs ''seconds_left''))"
| "spec_stress_shape _ = False"

fun spec_frame_shape :: "jsval \<Rightarrow> bool" where
  "spec_frame_shape (JObj kvs) =
     (spec_sensors_shape (map_of kvs ''sensors'') \<and> is_number (map_of kvs ''risk'') \<and>
      (map_of kvs ''distance_m'' = None \<or> is_number (map_of kvs ''distance_m'')) \<and>
      (map_of kvs ''system_state'' = None \<or> is_string (map_of kvs ''system_state'')) \<and>
      spec_stress_shape (map_of kvs ''stress''))"
| "spec_frame_shape _ = False"

text \<open>
  A value ``rendered with exactly \<open>d\<close> decimal places'', in the words of the
  specification: an optional minus sign, at least one digit, and, when \<open>d\<close> is not 0,
  a point and exactly \<open>d\<close> digits.
\<close>

definition spec_fixed_decimals :: "nat \<Rightarrow> string \<Rightarrow> bool" where
  "spec_fixed_decimals d str =
     (let u = (if take 1 str = ''-'' then drop 1 str else str);
          ip = takeWhile is_digit u;
          r = dropWhile is_digit u
      in ip \<noteq> [] \<and>
         (if d = 0 then r = []
          else take 1 r = ''.'' \<and> length (drop 1 r) = d \<and> list_all is_digit (drop 1 r)))"

subsection \<open>A frame and a page to evaluate the script on\<close>

definition sample_sensors :: jsval where
  "sample_sensors =
     JObj [(''temperature_c'', JNum (Fin 80)), (''pressure_bar'', JNum (Fin (5 / 2))),
           (''load_pct'', JNum (Fin 40)), (''throughput'', JNum (Fin 120)),
           (''vibration'', JNum (Fin (1 / 4))), (''humidity'', JNum (Fin 55))]"

definition sample_frame :: jsval where
  "sample_frame =
     JObj [(''sensors'', sample_sensors), (''risk'', JNum (Fin (1 / 2))),
           (''distance_m'', JNum (Fin 1)), (''system_state'', JStr ''RUNNING''),
           (''stress'', JObj [(''active'', JBool True), (''seconds_left'', JNum (Fin 12))])]"

definition blank :: element where
  "blank = \<lparr>textContent = [], classList = [], transform = []\<rparr>"

text \<open>A page with every slot, the banner hidden.\<close>

definition sample_document :: "string \<rightharpoonup> element" where
  "sample_document =
     [''kpi-temperature-value'' \<mapsto> blank, ''kpi-pressure-value'' \<mapsto> blank,
      ''kpi-load-value'' \<mapsto> blank, ''kpi-throughput-value'' \<mapsto> blank,
      ''kpi-vibration-value'' \<mapsto> blank, ''kpi-humidity-value'' \<mapsto> blank,
      ''system-state'' \<mapsto> blank, ''stress-banner'' \<mapsto> blank\<lparr>classList := [''d-none'']\<rparr>,
      ''stress-timer'' \<mapsto> blank, ''recommendation'' \<mapsto> blank]"

section \<open>Properties\<close>

subsection \<open>The conversions at some values\<close>

lemma round_double_examples:
  "round_double (1 / 2) = Fin (1 / 2)"
  "round_double 75 = Fin 75"
  "round_double (1 / 10) = Fin (3602879701896397 / 36028797018963968)"
  "round_double 9007199254740993 = Fin 9007199254740992"
  by code_simp+

lemma StringToNumber_examples:
  "StringToNumber [] = Fin 0"
  "StringToNumber '' 12.5e1 '' = Fin 125"
  "StringToNumber ''0x1F'' = Fin 31"
  "StringToNumber ''-Infinity'' = NInf"
  "StringToNumber ''0.7'' = round_double (7 / 10)"
  "StringToNumber ''abc'' = NaN"
  "StringToNumber ''1e'' = NaN"
  "StringToNumber ''[object Object]'' = NaN"
  by code_simp+

lemma Number_toString_examples:
  "Number_toString (Fin 12) = ''12''"
  "Number_toString (Fin (- 5 / 2)) = ''-2.5''"
  "Number_toString (round_double (1 / 10)) = ''0.1''"
  "Number_toString (Fin (10 ^ 21)) = ''1e+21''"
  by code_simp+

lemma toFixed_examples:
  "toFixed (Fin (5 / 2)) 0 = Inr ''3''"
  "toFixed (Fin (- 1 / 1000)) 2 = Inr ''-0.00''"
  "toFixed (Fin (12345 / 10)) 1 = Inr ''1234.5''"
  "toFixed (Fin (10 ^ 21)) 2 = Inr ''1e+21''"
  "toFixed NInf 2 = Inr ''-Infinity''"
  "toFixed (Fin 1) 101 = Inl RangeError"
  by code_simp+

lemma ToNumber_examples:
  "ToNumber (JArr []) = Inr (Fin 0)"
  "ToNumber (JArr [JNum (Fin 5)]) = Inr (Fin 5)"
  "ToNumber (JObj []) = Inr NaN"
  "ToNumber (JObj [(''toString'', JNum (Fin 0))]) = Inl TypeError"
  "ToString (JArr [JNum (Fin 1), JNull, JArr [JStr ''a'', JBool True], JObj []]) =
     Inr ''1,,a,true,[object Object]''"
  by code_simp+

subsection \<open>The bounded buffer\<close>

lemma pushLimited_eq: "pushLimited arr v n = drop (Suc (length arr) - n) (arr @ [v])"
  by (simp add: pushLimited_def Let_def)

lemma length_pushLimited: "length (pushLimited arr v n) = min (Suc (length arr)) n"
  by (simp add: pushLimited_eq)

lemma pushLimited_drop:
  "pushLimited (drop (length X - n) X) x n = drop (Suc (length X) - n) (X @ [x])"
proof (cases "length X \<le> n")
  case True
  then show ?thesis by (simp add: pushLimited_eq)
next
  case False
  then have k: "Suc (length X) - n = Suc (length X - n)" and le: "length X - n \<le> length X"
    by simp_all
  have "pushLimited (drop (length X - n) X) x n = drop 1 (drop (length X - n) X @ [x])"
    using False by (simp add: pushLimited_eq)
  also have "\<dots> = drop 1 (drop (length X - n) (X @ [x]))"
    using le by simp
  also have "\<dots> = drop (Suc (length X) - n) (X @ [x])"
    unfolding k by (simp only: drop_drop One_nat_def plus_1_eq_Suc add_Suc add_0)
  finally show ?thesis .
qed

lemma foldl_pushLimited:
  "foldl (\<lambda>a v. pushLimited a v n) arr vs =
     (if vs = [] then arr else drop (length (arr @ vs) - n) (arr @ vs))"
proof (induction vs rule: rev_induct)
  case Nil
  show ?case by simp
next
  case (snoc x xs)
  show ?case
  proof (cases "xs = []")
    case True
    then show ?thesis by (simp add: pushLimited_eq)
  next
    case False
    have "foldl (\<lambda>a v. pushLimited a v n) arr (xs @ [x]) =
            pushLimited (drop (length (arr @ xs) - n) (arr @ xs)) x n"
      using snoc False by simp
    also have "\<dots> = drop (Suc (length (arr @ xs)) - n) ((arr @ xs) @ [x])"
      by (rule pushLimited_drop)
    finally show ?thesis by simp
  qed
qed

text \<open>
  Claim C3. When more than 30 values are appended to a sequence by \<open>pushLimited\<close>,
  whatever the sequence held before, it then holds exactly the 30 values appended last,
  in the order in which they were appended.
\<close>

theorem pushLimited_keeps_most_recent:
  "HISTORY_MAX < length vs \<Longrightarrow>
     foldl (\<lambda>a v. pushLimited a v HISTORY_MAX) arr vs = drop (length vs - HISTORY_MAX) vs"
  by (auto simp: foldl_pushLimited)

theorem pushLimited_keeps_most_recent_witness:
  "HISTORY_MAX < length [0..<32] \<and>
   foldl (\<lambda>a v. pushLimited a v HISTORY_MAX) [] [0..<32] = drop 2 [0..<32]"
proof -
  have h: "HISTORY_MAX < length [0..<32]"
    by (simp add: HISTORY_MAX_def)
  have two: "length [0..<32] - HISTORY_MAX = 2"
    by (simp add: HISTORY_MAX_def)
  show ?thesis
    using h pushLimited_keeps_most_recent [OF h, of "[]"] unfolding two by blast
qed

subsection \<open>The recommendation\<close>

text \<open>
  Claim C6. When the distance is absent (\<^verbatim>\<open>undefined\<close> or \<^verbatim>\<open>null\<close>),
  \<open>recommend\<close> returns the distance prompt whatever the sensors object and the risk
  are: nothing of them is read before the test.
\<close>

theorem recommend_distance_absent:
  "recommend s risk JUndefined = Inr MSG_DISTANCE \<and> recommend s risk JNull = Inr MSG_DISTANCE"
  by (simp add: recommend_def nullish_def)

lemma literal_0_7: "round_double (7 / 10) = Fin (6305039478318694 / 9007199254740992)"
  by code_simp

lemma messages_distinct:
  "distinct [MSG_DISTANCE, MSG_CRITICAL, MSG_REDUCE, MSG_MAINTAIN, MSG_SAFE]"
  by (simp add: MSG_DISTANCE_def MSG_CRITICAL_def MSG_REDUCE_def MSG_MAINTAIN_def MSG_SAFE_def)

text \<open>
  Claim C1. With a distance present, a risk that is a number, and sensor fields that
  convert to the numbers \<open>tn\<close> and \<open>pn\<close>: the critical message when
  \<^verbatim>\<open>risk >= 0.7\<close>; the reduce warning when \<^verbatim>\<open>0.5 <= risk < 0.7\<close> and the
  temperature is above 75 or the pressure above 4; the maintain warning when
  \<^verbatim>\<open>0.5 <= risk < 0.7\<close> and neither is; the safe message when \<^verbatim>\<open>risk < 0.5\<close>.
  The comparisons are those of the doubles, so the bounds 0.7 and 0.5 are included and
  the bounds 75 and 4 are not; the pressure is converted only when the temperature is not
  above 75.
\<close>

theorem recommend_decision_table:
  assumes "d \<noteq> JUndefined" and "d \<noteq> JNull"
    and "get_prop s ''temperature_c'' = Inr t" and "ToNumber t = Inr tn"
    and "get_prop s ''pressure_bar'' = Inr p"
  shows "(num_ge risk (round_double (7 / 10)) \<longrightarrow>
            recommend s (JNum risk) d = Inr MSG_CRITICAL) \<and>
         (num_ge risk (Fin (1 / 2)) \<and> num_lt risk (round_double (7 / 10)) \<and>
            (num_gt tn (Fin 75) \<or> (ToNumber p = Inr pn \<and> num_gt pn (Fin 4))) \<longrightarrow>
            recommend s (JNum risk) d = Inr MSG_REDUCE) \<and>
         (num_ge risk (Fin (1 / 2)) \<and> num_lt risk (round_double (7 / 10)) \<and>
            \<not> num_gt tn (Fin 75) \<and> ToNumber p = Inr pn \<and> \<not> num_gt pn (Fin 4) \<longrightarrow>
            recommend s (JNum risk) d = Inr MSG_MAINTAIN) \<and>
         (num_lt risk (Fin (1 / 2)) \<longrightarrow> recommend s (JNum risk) d = Inr MSG_SAFE)"
proof -
  have lt_ge: "\<not> num_ge a b" if "num_lt a b" for a b
    using that by (simp add: num_ge_def)
  have low: "\<not> num_ge risk (round_double (7 / 10))" if "num_lt risk (Fin (1 / 2))"
    using that by (cases risk) (simp_all add: num_ge_def literal_0_7)
  show ?thesis
    using assms
    by (auto simp: recommend_def nullish_def js_ge_def js_gt_def bindE_def lt_ge low)
qed

theorem recommend_decision_table_witness:
  "JNum (Fin 1) \<noteq> JUndefined \<and> JNum (Fin 1) \<noteq> JNull \<and>
   get_prop (JObj [(''temperature_c'', JNum (Fin 75)), (''pressure_bar'', JNum (Fin 4))])
     ''temperature_c'' = Inr (JNum (Fin 75)) \<and>
   ToNumber (JNum (Fin 75)) = Inr (Fin 75) \<and>
   get_prop (JObj [(''temperature_c'', JNum (Fin 75)), (''pressure_bar'', JNum (Fin 4))])
     ''pressure_bar'' = Inr (JNum (Fin 4)) \<and>
   ToNumber (JNum (Fin 4)) = Inr (Fin 4) \<and>
   num_ge (Fin (1 / 2)) (Fin (1 / 2)) \<and> num_lt (Fin (1 / 2)) (round_double (7 / 10)) \<and>
   \<not> num_gt (Fin 75) (Fin 75) \<and> \<not> num_gt (Fin 4) (Fin 4) \<and>
   recommend (JObj [(''temperature_c'', JNum (Fin 75)), (''pressure_bar'', JNum (Fin 4))])
     (JNum (Fin (1 / 2))) (JNum (Fin 1)) = Inr MSG_MAINTAIN \<and>
   num_ge (round_double (7 / 10)) (round_double (7 / 10)) \<and>
   recommend (JObj [(''temperature_c'', JNum (Fin 75)), (''pressure_bar'', JNum (Fin 4))])
     (JNum (round_double (7 / 10))) (JNum (Fin 1)) = Inr MSG_CRITICAL"
proof -
  let ?s = "JObj [(''temperature_c'', JNum (Fin 75)), (''pressure_bar'', JNum (Fin 4))]"
  have h1: "JNum (Fin 1) \<noteq> JUndefined" and h2: "JNum (Fin 1) \<noteq> JNull"
    by simp_all
  have h3: "get_prop ?s ''temperature_c'' = Inr (JNum (Fin 75))"
    and h4: "ToNumber (JNum (Fin 75)) = Inr (Fin 75)"
    and h5: "get_prop ?s ''pressure_bar'' = Inr (JNum (Fin 4))"
    and h6: "ToNumber (JNum (Fin 4)) = Inr (Fin 4)"
    by simp_all
  have c: "num_ge (Fin (1 / 2)) (Fin (1 / 2))" "num_lt (Fin (1 / 2)) (round_double (7 / 10))"
    "\<not> num_gt (Fin 75) (Fin 75)" "\<not> num_gt (Fin 4) (Fin 4)"
    "num_ge (round_double (7 / 10)) (round_double (7 / 10))"
    by (simp_all add: num_ge_def num_gt_def literal_0_7)
  note table = recommend_decision_table [OF h1 h2 h3 h4 h5]
  have "recommend ?s (JNum (Fin (1 / 2))) (JNum (Fin 1)) = Inr MSG_MAINTAIN"
    using table [of "Fin (1 / 2)" "Fin 4"] h6 c by blast
  moreover have "recommend ?s (JNum (round_double (7 / 10))) (JNum (Fin 1)) = Inr MSG_CRITICAL"
    using table [of "round_double (7 / 10)" "Fin 4"] c by blast
  ultimately show ?thesis
    using h1 h2 h3 h4 h5 h6 c by blast
qed

subsection \<open>What the statements of a tick write\<close>

lemma exec_append:
  "exec (xs @ ys) st =
     (case exec xs st of (st', None) \<Rightarrow> exec ys st' | (st', Some e) \<Rightarrow> (st', Some e))"
  by (induction xs arbitrary: st) (auto split: prod.splits option.splits)

lemma exec_ok_append:
  "exec (xs @ ys) st = (st'', None) \<longleftrightarrow>
     (\<exists>st'. exec xs st = (st', None) \<and> exec ys st' = (st'', None))"
  by (auto simp: exec_append split: prod.splits option.splits)

lemma exec_preserves:
  assumes "\<And>c st. c \<in> set cs \<Longrightarrow> f (fst (c st)) = f st"
  shows "f (fst (exec cs st)) = f st"
  using assms
proof (induction cs arbitrary: st)
  case Nil
  show ?case by simp
next
  case (Cons c cs)
  have step: "f (fst (c st)) = f st" by (rule Cons.prems) simp
  have rest: "f (fst (exec cs st')) = f st'" for st'
    by (rule Cons.IH) (simp add: Cons.prems)
  show ?case
  proof (cases "c st")
    case (Pair st' r)
    with step rest [of st'] show ?thesis by (cases r) auto
  qed
qed

lemma set_element_fields [simp]:
  "labels (set_element i el st) = labels st"
  "sensorsHist (set_element i el st) = sensorsHist st"
  "riskHist (set_element i el st) = riskHist st"
  "console (set_element i el st) = console st"
  "document (set_element i el st) = (document st)(i \<mapsto> el)"
  by (simp_all add: set_element_def)

lemma setKPI_fields [simp]:
  "labels (setKPI i t st) = labels st"
  "sensorsHist (setKPI i t st) = sensorsHist st"
  "riskHist (setKPI i t st) = riskHist st"
  "console (setKPI i t st) = console st"
  by (simp_all add: setKPI_def split: option.splits)

lemma push_label_fields [simp]:
  "push_label ts st = (st\<lparr>labels := pushLimited (labels st) ts HISTORY_MAX\<rparr>, None)"
  by (simp add: push_label_def)

lemma push_risk_fields [simp]:
  "push_risk x st = (st\<lparr>riskHist := pushLimited (riskHist st) x HISTORY_MAX\<rparr>, None)"
  by (simp add: push_risk_def)

lemma push_sensor_fields [simp]:
  "labels (fst (push_sensor s c st)) = labels st"
  "riskHist (fst (push_sensor s c st)) = riskHist st"
  "console (fst (push_sensor s c st)) = console st"
  "document (fst (push_sensor s c st)) = document st"
  by (simp_all add: push_sensor_def split: sum.splits)

lemma show_kpi_fields [simp]:
  "labels (fst (show_kpi s c st)) = labels st"
  "sensorsHist (fst (show_kpi s c st)) = sensorsHist st"
  "riskHist (fst (show_kpi s c st)) = riskHist st"
  "console (fst (show_kpi s c st)) = console st"
  by (simp_all add: show_kpi_def split: sum.splits)

lemma show_state_fields [simp]:
  "labels (fst (show_state data st)) = labels st"
  "sensorsHist (fst (show_state data st)) = sensorsHist st"
  "riskHist (fst (show_state data st)) = riskHist st"
  "console (fst (show_state data st)) = console st"
  by (simp_all add: show_state_def split: sum.splits option.splits prod.splits)

lemma show_stress_fields [simp]:
  "labels (fst (show_stress data st)) = labels st"
  "sensorsHist (fst (show_stress data st)) = sensorsHist st"
  "riskHist (fst (show_stress data st)) = riskHist st"
  "console (fst (show_stress data st)) = console st"
  by (simp_all add: show_stress_def Let_def split: sum.splits option.splits prod.splits)

lemma show_recommendation_fields [simp]:
  "labels (fst (show_recommendation s risk d st)) = labels st"
  "sensorsHist (fst (show_recommendation s risk d st)) = sensorsHist st"
  "riskHist (fst (show_recommendation s risk d st)) = riskHist st"
  "console (fst (show_recommendation s risk d st)) = console st"
  by (simp_all add: show_recommendation_def split: sum.splits option.splits)

lemma present_stmts_fields [simp]:
  "labels (fst (exec (present_stmts data s risk d) st)) = labels st"
  "sensorsHist (fst (exec (present_stmts data s risk d) st)) = sensorsHist st"
  "riskHist (fst (exec (present_stmts data s risk d) st)) = riskHist st"
  "console (fst (exec (present_stmts data s risk d) st)) = console st"
  by (rule exec_preserves, auto simp: present_stmts_def)+


lemma push_sensor_ok:
  assumes "push_sensor s c st = (st', None)"
  shows "\<exists>x. st' = st\<lparr>sensorsHist := (sensorsHist st)(c := pushLimited (sensorsHist st c) x HISTORY_MAX)\<rparr>"
  using assms by (auto simp: push_sensor_def split: sum.splits)

lemma push_sensors_ok:
  assumes "exec (map (push_sensor s) cs) st = (st', None)" and "distinct cs"
  shows "length (sensorsHist st' c) =
           (if c \<in> set cs then min (Suc (length (sensorsHist st c))) HISTORY_MAX
            else length (sensorsHist st c))"
  using assms
proof (induction cs arbitrary: st)
  case Nil
  then show ?case by simp
next
  case (Cons a cs)
  from Cons.prems(1) obtain st1 where
    one: "push_sensor s a st = (st1, None)" and rest: "exec (map (push_sensor s) cs) st1 = (st', None)"
    by (auto split: prod.splits option.splits)
  from push_sensor_ok [OF one] obtain x where
    st1: "st1 = st\<lparr>sensorsHist := (sensorsHist st)(a := pushLimited (sensorsHist st a) x HISTORY_MAX)\<rparr>"
    by blast
  from Cons.prems(2) have "distinct cs" and "a \<notin> set cs" by simp_all
  from Cons.IH [OF rest \<open>distinct cs\<close>] \<open>a \<notin> set cs\<close> show ?case
    by (auto simp: st1 length_pushLimited)
qed

lemma push_sensors_fields [simp]:
  "labels (fst (exec (map (push_sensor s) cs) st)) = labels st"
  "riskHist (fst (exec (map (push_sensor s) cs) st)) = riskHist st"
  "console (fst (exec (map (push_sensor s) cs) st)) = console st"
  "document (fst (exec (map (push_sensor s) cs) st)) = document st"
  by (rule exec_preserves, auto)+

lemma channels_all: "distinct channels" "c \<in> set channels"
  by (simp add: channels_def, cases c) (simp_all add: channels_def)

lemma append_stmts_ok:
  assumes "exec (append_stmts ts s risk) st = (st', None)"
  shows "labels st' = pushLimited (labels st) ts HISTORY_MAX"
    and "length (sensorsHist st' c) = min (Suc (length (sensorsHist st c))) HISTORY_MAX"
    and "riskHist st' = pushLimited (riskHist st) risk HISTORY_MAX"
    and "console st' = console st" and "document st' = document st"
proof -
  let ?st1 = "st\<lparr>labels := pushLimited (labels st) ts HISTORY_MAX\<rparr>"
  from assms obtain st2 where
    st2: "exec (map (push_sensor s) channels) ?st1 = (st2, None)"
    and st': "st' = st2\<lparr>riskHist := pushLimited (riskHist st2) risk HISTORY_MAX\<rparr>"
    by (auto simp: append_stmts_def exec_append split: prod.splits option.splits)
  have f: "labels st2 = labels ?st1" "riskHist st2 = riskHist ?st1"
    "console st2 = console ?st1" "document st2 = document ?st1"
    using push_sensors_fields [of s channels ?st1] unfolding st2 by simp_all
  show "labels st' = pushLimited (labels st) ts HISTORY_MAX"
    and "riskHist st' = pushLimited (riskHist st) risk HISTORY_MAX"
    and "console st' = console st" and "document st' = document st"
    using f by (simp_all add: st')
  show "length (sensorsHist st' c) = min (Suc (length (sensorsHist st c))) HISTORY_MAX"
    using push_sensors_ok [OF st2 channels_all(1), of c] channels_all(2) [of c]
    by (simp add: st')
qed

lemma append_stmts_console [simp]:
  "console (fst (exec (append_stmts ts s risk) st)) = console st"
  by (rule exec_preserves) (auto simp: append_stmts_def)

lemma tick_try_console [simp]: "console (fst (tick_try ts r st)) = console st"
proof -
  have "console (fst (exec (tick_stmts ts data s risk d) st)) = console st" for data s risk d
    by (rule exec_preserves) (auto simp: tick_stmts_def append_stmts_def present_stmts_def)
  then show ?thesis
    by (auto simp: tick_try_def split: response.splits sum.splits)
qed

lemma tick_try_ok_history:
  assumes "tick_try ts r st = (st', None)"
  shows "\<exists>risk. labels st' = pushLimited (labels st) ts HISTORY_MAX \<and>
           (\<forall>c. length (sensorsHist st' c) = min (Suc (length (sensorsHist st c))) HISTORY_MAX) \<and>
           riskHist st' = pushLimited (riskHist st) risk HISTORY_MAX"
proof -
  from assms obtain data s risk d st1 where
    "exec (append_stmts ts s risk) st = (st1, None)"
    and p: "exec (present_stmts data s risk d) st1 = (st', None)"
    by (auto simp: tick_try_def tick_stmts_def exec_ok_append
             split: response.splits sum.splits prod.splits)
  note a = append_stmts_ok [OF this(1)]
  have "labels st' = labels st1" "sensorsHist st' = sensorsHist st1" "riskHist st' = riskHist st1"
    using present_stmts_fields [of data s risk d st1] unfolding p by simp_all
  with a show ?thesis by auto
qed

lemma tick_ok_inv:
  assumes "tick_try ts r st = (st', None)" and "history_inv st"
  shows "history_inv st'"
  using tick_try_ok_history [OF assms(1)] assms(2)
  by (auto simp: history_inv_def length_pushLimited)

lemma tick_console:
  "console (tick st ts r) =
     console st @ (case snd (tick_try ts r st) of None \<Rightarrow> [] | Some e \<Rightarrow> [''poll failed''])"
  using tick_try_console [of ts r st]
  by (cases "tick_try ts r st") (auto simp: tick_def split: option.splits)

lemma run_ticks_snoc: "run_ticks st (polls @ [(ts, r)]) = tick (run_ticks st polls) ts r"
  by (simp add: run_ticks_def)

lemma run_ticks_console_prefix: "\<exists>more. console (run_ticks st polls) = console st @ more"
proof (induction polls rule: rev_induct)
  case Nil
  show ?case by (simp add: run_ticks_def)
next
  case (snoc p polls)
  then show ?case by (cases p) (auto simp: run_ticks_snoc tick_console)
qed

lemma run_ticks_quiet_inv:
  assumes "history_inv st" and "console (run_ticks st polls) = console st"
  shows "history_inv (run_ticks st polls)"
  using assms(2)
proof (induction polls rule: rev_induct)
  case Nil
  show ?case using assms(1) by (simp add: run_ticks_def)
next
  case (snoc p polls)
  obtain ts r where p: "p = (ts, r)" by (cases p)
  obtain more where more: "console (run_ticks st polls) = console st @ more"
    using run_ticks_console_prefix by blast
  let ?st = "run_ticks st polls"
  from snoc.prems have c: "console (tick ?st ts r) = console st"
    by (simp add: p run_ticks_snoc)
  then have quiet: "more = []" and ok: "snd (tick_try ts r ?st) = None"
    by (auto simp: tick_console more split: option.splits)
  from quiet more have "history_inv ?st" by (intro snoc.IH) simp
  moreover from ok have "tick ?st ts r = fst (tick_try ts r ?st)"
    by (cases "tick_try ts r ?st") (simp add: tick_def)
  moreover from ok have "tick_try ts r ?st = (fst (tick_try ts r ?st), None)"
    by (cases "tick_try ts r ?st") simp
  ultimately show ?case
    using tick_ok_inv by (simp add: p run_ticks_snoc)
qed

lemma run_ticks_take_quiet:
  assumes "console (run_ticks st polls) = console st"
  shows "console (run_ticks st (take n polls)) = console st"
proof -
  have "run_ticks st polls = run_ticks (run_ticks st (take n polls)) (drop n polls)"
    by (simp add: run_ticks_def flip: foldl_append)
  moreover obtain a where "console (run_ticks st (take n polls)) = console st @ a"
    using run_ticks_console_prefix by blast
  moreover obtain b where "console (run_ticks (run_ticks st (take n polls)) (drop n polls)) =
      console (run_ticks st (take n polls)) @ b"
    using run_ticks_console_prefix by blast
  ultimately show ?thesis using assms by simp
qed

text \<open>
  Claim C2. In a run of poll ticks none of which fails (nothing is caught and logged),
  starting from a history whose eight sequences have one length of at most 30 (the empty
  history the page starts with is one), after each tick the eight sequences have the same
  length, and it is at most 30.
\<close>

theorem history_lengths_invariant:
  assumes "history_inv st" and "console (run_ticks st polls) = console st"
  shows "history_inv (run_ticks st (take n polls))"
  using assms(1) run_ticks_take_quiet [OF assms(2)] by (rule run_ticks_quiet_inv)

theorem history_lengths_invariant_witness:
  "history_inv (initial_page Map.empty) \<and>
   console (run_ticks (initial_page Map.empty)
      [(''10:00:00'', Body sample_frame), (''10:00:01'', Body sample_frame)]) =
     console (initial_page Map.empty) \<and>
   history_inv (run_ticks (initial_page Map.empty)
      (take 1 [(''10:00:00'', Body sample_frame), (''10:00:01'', Body sample_frame)])) \<and>
   history_inv (run_ticks (initial_page Map.empty)
      (take 2 [(''10:00:00'', Body sample_frame), (''10:00:01'', Body sample_frame)]))"
proof -
  have h1: "history_inv (initial_page Map.empty)"
    by (simp add: history_inv_def initial_page_def)
  have h2: "console (run_ticks (initial_page Map.empty)
      [(''10:00:00'', Body sample_frame), (''10:00:01'', Body sample_frame)]) =
     console (initial_page Map.empty)"
    by code_simp
  show ?thesis
    using h1 h2 history_lengths_invariant [OF h1 h2, of 1]
      history_lengths_invariant [OF h1 h2, of 2]
    by blast
qed

subsection \<open>What is stored\<close>

lemma Number_or_0_simps [simp]:
  "Number_or_0 JUndefined = Inr (Fin 0)"
  "Number_or_0 JNull = Inr (Fin 0)"
  "Number_or_0 (JNum n) = Inr n"
  by (simp_all add: Number_or_0_def js_coalesce_def nullish_def)

lemma Number_or_0_cases:
  assumes "Number_or_0 v = Inr x"
  shows "(nullish v \<longrightarrow> x = Fin 0) \<and> (\<forall>n. v = JNum n \<longrightarrow> x = n)"
  using assms by (auto simp: nullish_def)

lemma push_sensor_value:
  assumes "push_sensor s c st = (st', None)"
  shows "\<exists>v x. get_prop s (key c) = Inr v \<and> Number_or_0 v = Inr x \<and>
           st' = st\<lparr>sensorsHist := (sensorsHist st)(c := pushLimited (sensorsHist st c) x HISTORY_MAX)\<rparr>"
  using assms by (auto simp: push_sensor_def bindE_def split: sum.splits)

lemma push_sensors_values:
  assumes "exec (map (push_sensor s) cs) st = (st', None)" and "distinct cs"
  shows "if c \<in> set cs
         then \<exists>v x. get_prop s (key c) = Inr v \<and> Number_or_0 v = Inr x \<and>
                sensorsHist st' c = pushLimited (sensorsHist st c) x HISTORY_MAX
         else sensorsHist st' c = sensorsHist st c"
  using assms
proof (induction cs arbitrary: st)
  case Nil
  then show ?case by simp
next
  case (Cons a cs)
  from Cons.prems(1) obtain st1 where
    one: "push_sensor s a st = (st1, None)" and rest: "exec (map (push_sensor s) cs) st1 = (st', None)"
    by (auto split: prod.splits option.splits)
  from push_sensor_value [OF one] obtain v x where
    v: "get_prop s (key a) = Inr v" "Number_or_0 v = Inr x"
    and st1: "st1 = st\<lparr>sensorsHist := (sensorsHist st)(a := pushLimited (sensorsHist st a) x HISTORY_MAX)\<rparr>"
    by blast
  from Cons.prems(2) have d: "distinct cs" and a: "a \<notin> set cs" by simp_all
  note IH = Cons.IH [OF rest d]
  show ?case
  proof (cases "c = a")
    case True
    with IH a have "sensorsHist st' c = sensorsHist st1 c" by simp
    with True v show ?thesis by (auto simp: st1)
  next
    case False
    then have "sensorsHist st1 c = sensorsHist st c" by (simp add: st1)
    with IH False show ?thesis by (auto split: if_splits)
  qed
qed

text \<open>
  Claim C4, as amended. In a tick that completes, the value stored for the risk and for
  each channel is the number \<^verbatim>\<open>Number(v ?? 0)\<close> of the field \<open>v\<close> of the frame: 0
  when the field is absent or \<^verbatim>\<open>null\<close>, the number itself when the field is a number.
  Any other value is converted by \<^verbatim>\<open>Number\<close>, not replaced by 0.
\<close>

theorem stored_values_are_converted_numbers:
  assumes "tick_try ts (Body data) st = (st', None)"
  shows "\<exists>s risk d rv.
           frame_locals data = Inr (s, risk, d) \<and>
           get_prop data ''risk'' = Inr rv \<and> Number_or_0 rv = Inr risk \<and>
           (nullish rv \<longrightarrow> risk = Fin 0) \<and> (\<forall>n. rv = JNum n \<longrightarrow> risk = n) \<and>
           riskHist st' = pushLimited (riskHist st) risk HISTORY_MAX \<and>
           (\<forall>c. \<exists>v x. get_prop s (key c) = Inr v \<and> Number_or_0 v = Inr x \<and>
                   (nullish v \<longrightarrow> x = Fin 0) \<and> (\<forall>n. v = JNum n \<longrightarrow> x = n) \<and>
                   sensorsHist st' c = pushLimited (sensorsHist st c) x HISTORY_MAX)"
proof -
  from assms obtain s risk d st1 where
    loc: "frame_locals data = Inr (s, risk, d)"
    and a: "exec (append_stmts ts s risk) st = (st1, None)"
    and p: "exec (present_stmts data s risk d) st1 = (st', None)"
    by (auto simp: tick_try_def tick_stmts_def exec_ok_append split: sum.splits prod.splits)
  from loc obtain rv where rv: "get_prop data ''risk'' = Inr rv" "Number_or_0 rv = Inr risk"
    by (auto simp: frame_locals_def bindE_def split: sum.splits)
  let ?st0 = "st\<lparr>labels := pushLimited (labels st) ts HISTORY_MAX\<rparr>"
  from a obtain st2 where
    st2: "exec (map (push_sensor s) channels) ?st0 = (st2, None)"
    and st1: "st1 = st2\<lparr>riskHist := pushLimited (riskHist st2) risk HISTORY_MAX\<rparr>"
    by (auto simp: append_stmts_def exec_append split: prod.splits option.splits)
  have keep: "sensorsHist st' = sensorsHist st1" "riskHist st' = riskHist st1"
    using present_stmts_fields [of data s risk d st1] unfolding p by simp_all
  have "riskHist st2 = riskHist ?st0"
    using push_sensors_fields(2) [of s channels ?st0] unfolding st2 by simp
  then have risk: "riskHist st' = pushLimited (riskHist st) risk HISTORY_MAX"
    by (simp add: keep st1)
  have sens: "\<exists>v x. get_prop s (key c) = Inr v \<and> Number_or_0 v = Inr x \<and>
                   (nullish v \<longrightarrow> x = Fin 0) \<and> (\<forall>n. v = JNum n \<longrightarrow> x = n) \<and>
                   sensorsHist st' c = pushLimited (sensorsHist st c) x HISTORY_MAX" for c
  proof -
    from push_sensors_values [OF st2 channels_all(1), of c] channels_all(2) [of c]
    obtain v x where "get_prop s (key c) = Inr v" "Number_or_0 v = Inr x"
      "sensorsHist st2 c = pushLimited (sensorsHist st c) x HISTORY_MAX"
      by auto
    with Number_or_0_cases [OF this(2)] show ?thesis
      by (auto simp: keep st1)
  qed
  from loc rv Number_or_0_cases [OF rv(2)] risk sens show ?thesis
    by blast
qed


theorem stored_values_witness:
  "tick_try ''10:00:00'' (Body sample_frame) (initial_page Map.empty) =
     (fst (tick_try ''10:00:00'' (Body sample_frame) (initial_page Map.empty)), None) \<and>
   riskHist (fst (tick_try ''10:00:00'' (Body sample_frame) (initial_page Map.empty))) =
     pushLimited (riskHist (initial_page Map.empty)) (Fin (1 / 2)) HISTORY_MAX"
proof -
  let ?st' = "fst (tick_try ''10:00:00'' (Body sample_frame) (initial_page Map.empty))"
  have "snd (tick_try ''10:00:00'' (Body sample_frame) (initial_page Map.empty)) = None"
    by code_simp
  then have h: "tick_try ''10:00:00'' (Body sample_frame) (initial_page Map.empty) = (?st', None)"
    by (simp add: prod_eq_iff)
  have r: "get_prop sample_frame ''risk'' = Inr (JNum (Fin (1 / 2)))"
    by (simp add: sample_frame_def)
  from stored_values_are_converted_numbers [OF h] r
  have "riskHist ?st' = pushLimited (riskHist (initial_page Map.empty)) (Fin (1 / 2)) HISTORY_MAX"
    by auto
  with h show ?thesis by blast
qed

text \<open>
  Claim C4 as stated fails: a field that is a string other than a numeric literal is
  stored as \<open>NaN\<close>, in a channel as well as in the risk sequence.
\<close>

theorem nan_is_stored_counterexample:
  "sensorsHist (tick (initial_page Map.empty) ''10:00:00''
       (Body (JObj [(''sensors'', JObj [(''temperature_c'', JStr ''abc'')]),
                    (''risk'', JStr ''high'')]))) Temperature_c = [NaN] \<and>
   riskHist (tick (initial_page Map.empty) ''10:00:00''
       (Body (JObj [(''sensors'', JObj [(''temperature_c'', JStr ''abc'')]),
                    (''risk'', JStr ''high'')]))) = [NaN]"
  by code_simp

subsection \<open>A poll that fails\<close>

lemma console_blind_stmts:
  "console_blind (push_label ts)" "console_blind (push_sensor s c)" "console_blind (push_risk risk)"
  "console_blind (show_kpi s c)" "console_blind (show_state data)"
  "console_blind (show_stress data)" "console_blind (show_recommendation s risk d)"
  by (auto simp: console_blind_def push_label_def push_sensor_def push_risk_def show_kpi_def
        show_state_def show_stress_def show_recommendation_def setKPI_def set_element_def Let_def
      split: sum.splits option.splits prod.splits)

lemma console_blind_exec:
  assumes "\<And>c. c \<in> set cs \<Longrightarrow> console_blind c"
  shows "console_blind (exec cs)"
  using assms
proof (induction cs)
  case Nil
  show ?case by (simp add: console_blind_def)
next
  case (Cons c cs)
  have c: "console_blind c" and cs: "console_blind (exec cs)"
    using Cons by simp_all
  show ?case
    unfolding console_blind_def
  proof (intro allI)
    fix st x
    show "exec (c # cs) (st\<lparr>console := x\<rparr>) =
            (fst (exec (c # cs) st)\<lparr>console := x\<rparr>, snd (exec (c # cs) st))"
      using c cs unfolding console_blind_def
      by (cases "c st") (auto split: option.splits prod.splits)
  qed
qed

lemma console_blind_tick_try: "console_blind (tick_try ts r)"
proof -
  have "console_blind (exec (tick_stmts ts data s risk d))" for data s risk d
    by (rule console_blind_exec)
       (auto simp: tick_stmts_def append_stmts_def present_stmts_def console_blind_stmts)
  then show ?thesis
    by (auto simp: console_blind_def tick_try_def split: response.splits sum.splits)
qed

lemma same_state_update: "same_state a b \<Longrightarrow> b = a\<lparr>console := console b\<rparr>"
  by (cases a, cases b) (simp add: same_state_def)

lemma same_state_tick:
  assumes "same_state a b"
  shows "same_state (tick a ts r) (tick b ts r)"
proof -
  have b: "b = a\<lparr>console := console b\<rparr>" using assms by (rule same_state_update)
  have "tick_try ts r b = (fst (tick_try ts r a)\<lparr>console := console b\<rparr>, snd (tick_try ts r a))"
    using console_blind_tick_try [of ts r] b unfolding console_blind_def by metis
  then show ?thesis
    by (cases "tick_try ts r a") (auto simp: tick_def same_state_def split: option.splits)
qed

lemma same_state_run:
  assumes "same_state a b"
  shows "same_state (run_ticks a polls) (run_ticks b polls)"
  using assms
proof (induction polls rule: rev_induct)
  case Nil
  then show ?case by (simp add: run_ticks_def)
next
  case (snoc p polls)
  then show ?case by (cases p) (simp add: run_ticks_snoc same_state_tick)
qed

text \<open>
  Claim C7, as amended. When \<^verbatim>\<open>fetch\<close> rejects, the body does not parse, or reading
  the fields of the parsed body throws before the first append (the body is \<^verbatim>\<open>null\<close>,
  or its risk cannot be converted to a number), the tick only logs the failure: the eight
  sequences and the page are exactly as before, and the ticks that follow run as if the
  failed one had not happened.
\<close>

theorem failed_poll_leaves_state:
  assumes "r = Rejected \<or> r = Unparsable \<or> (\<exists>data e. r = Body data \<and> frame_locals data = Inl e)"
  shows "tick st ts r = st\<lparr>console := console st @ [''poll failed'']\<rparr> \<and>
         same_state (run_ticks st ((ts, r) # rest)) (run_ticks st rest)"
proof -
  have t: "tick st ts r = st\<lparr>console := console st @ [''poll failed'']\<rparr>"
    using assms by (auto simp: tick_def tick_try_def)
  have "same_state (st\<lparr>console := console st @ [''poll failed'']\<rparr>) st"
    by (simp add: same_state_def)
  then have "same_state (run_ticks (tick st ts r) rest) (run_ticks st rest)"
    unfolding t by (rule same_state_run)
  with t show ?thesis by (simp add: run_ticks_def)
qed

theorem failed_poll_leaves_state_witness:
  "(Body JNull = Rejected \<or> Body JNull = Unparsable \<or>
      (\<exists>data e. Body JNull = Body data \<and> frame_locals data = Inl e)) \<and>
   labels (tick (initial_page sample_document) ''10:00:00'' (Body JNull)) = [] \<and>
   same_state
     (run_ticks (initial_page sample_document)
        [(''10:00:00'', Body JNull), (''10:00:01'', Body sample_frame)])
     (run_ticks (initial_page sample_document) [(''10:00:01'', Body sample_frame)])"
proof -
  have "frame_locals JNull = Inl TypeError"
    by (simp add: frame_locals_def bindE_def)
  then have h: "Body JNull = Rejected \<or> Body JNull = Unparsable \<or>
      (\<exists>data e. Body JNull = Body data \<and> frame_locals data = Inl e)"
    by blast
  from failed_poll_leaves_state [OF h, of "initial_page sample_document" "''10:00:00''"
      "[(''10:00:01'', Body sample_frame)]"] h
  show ?thesis by (simp add: initial_page_def)
qed

text \<open>
  Claim C7 as stated fails for a body of invalid shape: a body that is not an object at
  all is not rejected; every field is defaulted and a sample is appended, with no failure
  logged.
\<close>

theorem invalid_shape_is_appended_counterexample:
  "\<not> spec_frame_shape (JNum (Fin 5)) \<and>
   labels (tick (initial_page Map.empty) ''10:00:00'' (Body (JNum (Fin 5)))) = [''10:00:00''] \<and>
   riskHist (tick (initial_page Map.empty) ''10:00:00'' (Body (JNum (Fin 5)))) = [Fin 0] \<and>
   console (tick (initial_page Map.empty) ''10:00:00'' (Body (JNum (Fin 5)))) = []"
  by code_simp

text \<open>
  A tick can also fail between two appends. \<^verbatim>\<open>Number\<close> throws a TypeError on an object
  with an own property \<^verbatim>\<open>toString\<close>; when a sensor field is such an object, the label
  has been pushed already, and the history is left with sequences of different lengths.
\<close>

lemma throwing_sensor_appends_label_only:
  "labels (tick (initial_page Map.empty) ''10:00:00''
      (Body (JObj [(''sensors'', JObj [(''temperature_c'', JObj [(''toString'', JNum (Fin 0))])])])))
     = [''10:00:00'']"
  "sensorsHist (tick (initial_page Map.empty) ''10:00:00''
      (Body (JObj [(''sensors'', JObj [(''temperature_c'', JObj [(''toString'', JNum (Fin 0))])])])))
      Temperature_c = []"
  "riskHist (tick (initial_page Map.empty) ''10:00:00''
      (Body (JObj [(''sensors'', JObj [(''temperature_c'', JObj [(''toString'', JNum (Fin 0))])])])))
     = []"
  "console (tick (initial_page Map.empty) ''10:00:00''
      (Body (JObj [(''sensors'', JObj [(''temperature_c'', JObj [(''toString'', JNum (Fin 0))])])])))
     = [''poll failed'']"
  by code_simp+

lemma throwing_sensor_breaks_invariant:
  "\<not> history_inv (tick (initial_page Map.empty) ''10:00:00''
      (Body (JObj [(''sensors'', JObj [(''temperature_c'', JObj [(''toString'', JNum (Fin 0))])])])))"
  using throwing_sensor_appends_label_only(1,3) by (simp add: history_inv_def)

subsection \<open>What a tick writes to the page\<close>

lemma show_kpi_document:
  "i \<noteq> kpi_id c @ ''-value'' \<Longrightarrow> document (fst (show_kpi s c st)) i = document st i"
  by (auto simp: show_kpi_def setKPI_def split: sum.splits option.splits)

lemma kpi_ids_other:
  "''system-state'' \<noteq> kpi_id c @ ''-value''" "''stress-banner'' \<noteq> kpi_id c @ ''-value''"
  "''stress-timer'' \<noteq> kpi_id c @ ''-value''" "''recommendation'' \<noteq> kpi_id c @ ''-value''"
  by (cases c; simp)+

lemma show_kpis_document:
  assumes "\<And>c. i \<noteq> kpi_id c @ ''-value''"
  shows "document (fst (exec (map (show_kpi s) cs) st)) i = document st i"
  by (rule exec_preserves [where f = "\<lambda>st. document st i"]) (auto simp: show_kpi_document assms)

lemma show_state_document:
  "i \<noteq> ''system-state'' \<Longrightarrow> document (fst (show_state data st)) i = document st i"
  by (auto simp: show_state_def split: sum.splits option.splits prod.splits)

lemma show_stress_document:
  "i \<noteq> ''stress-banner'' \<Longrightarrow> i \<noteq> ''stress-timer'' \<Longrightarrow>
     document (fst (show_stress data st)) i = document st i"
  by (auto simp: show_stress_def Let_def split: sum.splits option.splits prod.splits)

lemma show_recommendation_document:
  "i \<noteq> ''recommendation'' \<Longrightarrow> document (fst (show_recommendation s risk d st)) i = document st i"
  by (auto simp: show_recommendation_def split: sum.splits option.splits)

lemma tick_complete_chain:
  assumes "tick_try ts (Body data) st = (st', None)"
  obtains s risk d st1 st2 st3 st4 where
    "frame_locals data = Inr (s, risk, d)"
    "exec (append_stmts ts s risk) st = (st1, None)"
    "exec (map (show_kpi s) channels) st1 = (st2, None)"
    "show_state data st2 = (st3, None)"
    "show_stress data st3 = (st4, None)"
    "show_recommendation s risk d st4 = (st', None)"
proof -
  from assms obtain s risk d st1 where
    loc: "frame_locals data = Inr (s, risk, d)"
    and a: "exec (append_stmts ts s risk) st = (st1, None)"
    and p: "exec (present_stmts data s risk d) st1 = (st', None)"
    by (auto simp: tick_try_def tick_stmts_def exec_ok_append split: sum.splits prod.splits)
  from p obtain st2 where k: "exec (map (show_kpi s) channels) st1 = (st2, None)"
    and r: "exec [show_state data, show_stress data, show_recommendation s risk d] st2 = (st', None)"
    by (auto simp: present_stmts_def exec_ok_append)
  from r obtain st3 st4 where "show_state data st2 = (st3, None)"
    "show_stress data st3 = (st4, None)" "show_recommendation s risk d st4 = (st', None)"
    by (auto split: prod.splits option.splits)
  with loc a k show ?thesis by (rule that)
qed

lemma frame_locals_not_nullish:
  "frame_locals data = Inr x \<Longrightarrow> data \<noteq> JUndefined \<and> data \<noteq> JNull"
  by (auto simp: frame_locals_def bindE_def)

text \<open>
  Claim C10. In a tick that completes on a page with the status slot, for a frame whose
  \<^verbatim>\<open>system_state\<close> is absent, \<^verbatim>\<open>null\<close> or the empty string, the slot shows the
  text \<^verbatim>\<open>RUNNING\<close> and has neither the class \<^verbatim>\<open>status-running\<close> nor the class
  \<^verbatim>\<open>status-stopped\<close>: the text comes from \<^verbatim>\<open>data.system_state || "RUNNING"\<close>, the
  classes from comparing the field itself.
\<close>

theorem empty_state_shows_running_without_class:
  assumes "tick_try ts (Body data) st = (st', None)"
    and "document st ''system-state'' = Some stateEl"
    and "get_prop data ''system_state'' = Inr v"
    and "v = JUndefined \<or> v = JNull \<or> v = JStr []"
  shows "\<exists>el. document st' ''system-state'' = Some el \<and> textContent el = ''RUNNING'' \<and>
           ''status-running'' \<notin> set (classList el) \<and> ''status-stopped'' \<notin> set (classList el)"
proof -
  from assms(1) obtain s risk d st1 st2 st3 st4 where
    a: "exec (append_stmts ts s risk) st = (st1, None)"
    and k: "exec (map (show_kpi s) channels) st1 = (st2, None)"
    and sh: "show_state data st2 = (st3, None)"
    and ss: "show_stress data st3 = (st4, None)"
    and sr: "show_recommendation s risk d st4 = (st', None)"
    by (rule tick_complete_chain)
  have "document st2 ''system-state'' = document st1 ''system-state''"
    using show_kpis_document [of "''system-state''" s channels st1] kpi_ids_other unfolding k
    by simp
  then have el2: "document st2 ''system-state'' = Some stateEl"
    using append_stmts_ok(5) [OF a] assms(2) by simp
  have shown_text: "DOMString (js_or v (JStr ''RUNNING'')) = Inr ''RUNNING''"
    using assms(4) by (auto simp: DOMString_def js_or_def nullish_def)
  have no: "v \<noteq> JStr ''RUNNING''" "v \<noteq> JStr ''STOPPED''"
    using assms(4) by auto
  let ?el = "stateEl\<lparr>textContent := ''RUNNING'',
      classList := remove_class ''status-stopped'' (remove_class ''status-running'' (classList stateEl)),
      transform := ''scale(1.04)''\<rparr>"
  have "document st3 ''system-state'' = Some ?el"
    using sh el2 assms(3) shown_text no
    by (auto simp: show_state_def bindE_def toggle_class_def)
  moreover have "document st4 ''system-state'' = document st3 ''system-state''"
    using show_stress_document [of "''system-state''" data st3] unfolding ss by simp
  moreover have "document st' ''system-state'' = document st4 ''system-state''"
    using show_recommendation_document [of "''system-state''" s risk d st4] unfolding sr by simp
  ultimately have "document st' ''system-state'' = Some ?el" by simp
  then show ?thesis by (simp add: remove_class_def)
qed

theorem empty_state_shows_running_without_class_witness:
  "tick_try ''10:00:00'' (Body (JObj [(''sensors'', sample_sensors), (''system_state'', JStr [])]))
      (initial_page sample_document) =
     (fst (tick_try ''10:00:00''
        (Body (JObj [(''sensors'', sample_sensors), (''system_state'', JStr [])]))
        (initial_page sample_document)), None) \<and>
   document (initial_page sample_document) ''system-state'' = Some blank \<and>
   get_prop (JObj [(''sensors'', sample_sensors), (''system_state'', JStr [])]) ''system_state'' =
     Inr (JStr []) \<and>
   (JStr [] = JUndefined \<or> JStr [] = JNull \<or> JStr [] = JStr []) \<and>
   (\<exists>el. document (fst (tick_try ''10:00:00''
            (Body (JObj [(''sensors'', sample_sensors), (''system_state'', JStr [])]))
            (initial_page sample_document))) ''system-state'' = Some el \<and>
         textContent el = ''RUNNING'' \<and>
         ''status-running'' \<notin> set (classList el) \<and> ''status-stopped'' \<notin> set (classList el))"
proof -
  let ?F = "JObj [(''sensors'', sample_sensors), (''system_state'', JStr [])]"
  let ?P = "initial_page sample_document"
  have "snd (tick_try ''10:00:00'' (Body ?F) ?P) = None"
    by code_simp
  then have h1: "tick_try ''10:00:00'' (Body ?F) ?P = (fst (tick_try ''10:00:00'' (Body ?F) ?P), None)"
    by (simp add: prod_eq_iff)
  have h2: "document ?P ''system-state'' = Some blank"
    by (simp add: initial_page_def sample_document_def)
  have h3: "get_prop ?F ''system_state'' = Inr (JStr [])"
    by simp
  have h4: "JStr [] = JUndefined \<or> JStr [] = JNull \<or> JStr [] = JStr []"
    by simp
  from empty_state_shows_running_without_class [OF h1 h2 h3 h4] h1 h2 h3 h4
  show ?thesis by blast
qed

text \<open>
  Claim C8. In a tick that completes on a page with the banner and the countdown slot,
  where \<open>stress\<close> is \<^verbatim>\<open>data.stress\<close> or, when that is missing, the object
  \<^verbatim>\<open>{active:false, seconds_left:0}\<close>: if \<^verbatim>\<open>stress.active\<close> is \<^verbatim>\<open>true\<close> the banner
  loses the class \<^verbatim>\<open>d-none\<close> and the countdown shows
  \<^verbatim>\<open>String(stress.seconds_left)\<close>, which is \<^verbatim>\<open>12\<close> for the number 12; if it is
  \<^verbatim>\<open>false\<close> the banner has the class \<^verbatim>\<open>d-none\<close> and the countdown is left as it
  was.
\<close>

theorem stress_banner_and_countdown:
  assumes "tick_try ts (Body data) st = (st', None)"
    and "document st ''stress-banner'' = Some banner"
    and "document st ''stress-timer'' = Some timer"
    and "get_prop data ''stress'' = Inr sv"
    and "get_prop (js_or sv no_stress) ''active'' = Inr active"
  shows "(active = JBool True \<longrightarrow>
            (\<exists>secs text b.
               get_prop (js_or sv no_stress) ''seconds_left'' = Inr secs \<and>
               ToString secs = Inr text \<and>
               document st' ''stress-timer'' = Some (timer\<lparr>textContent := text\<rparr>) \<and>
               document st' ''stress-banner'' = Some b \<and> ''d-none'' \<notin> set (classList b))) \<and>
         (active = JBool False \<longrightarrow>
            (\<exists>b. document st' ''stress-banner'' = Some b \<and> ''d-none'' \<in> set (classList b)) \<and>
            document st' ''stress-timer'' = Some timer)"
proof -
  from assms(1) obtain s risk d st1 st2 st3 st4 where
    a: "exec (append_stmts ts s risk) st = (st1, None)"
    and k: "exec (map (show_kpi s) channels) st1 = (st2, None)"
    and sh: "show_state data st2 = (st3, None)"
    and ss: "show_stress data st3 = (st4, None)"
    and sr: "show_recommendation s risk d st4 = (st', None)"
    by (rule tick_complete_chain)
  have same: "document st3 i = document st i" if "i = ''stress-banner'' \<or> i = ''stress-timer''" for i
  proof -
    have "document st3 i = document st2 i"
      using show_state_document [of i data st2] that unfolding sh by auto
    also have "\<dots> = document st1 i"
      using show_kpis_document [of i s channels st1] kpi_ids_other that unfolding k by auto
    finally show ?thesis using append_stmts_ok(5) [OF a] by simp
  qed
  have b3: "document st3 ''stress-banner'' = Some banner"
    and t3: "document st3 ''stress-timer'' = Some timer"
    using same assms(2,3) by simp_all
  have last: "document st' i = document st4 i" if "i = ''stress-banner'' \<or> i = ''stress-timer''" for i
    using show_recommendation_document [of i s risk d st4] that unfolding sr by auto
  have shown: "\<exists>secs text b.
               get_prop (js_or sv no_stress) ''seconds_left'' = Inr secs \<and>
               ToString secs = Inr text \<and>
               document st4 ''stress-timer'' = Some (timer\<lparr>textContent := text\<rparr>) \<and>
               document st4 ''stress-banner'' = Some b \<and> ''d-none'' \<notin> set (classList b)"
    if "active = JBool True"
    using ss b3 t3 assms(4,5) that
    by (auto simp: show_stress_def Let_def bindE_def remove_class_def split: sum.splits)
  have hidden: "(\<exists>b. document st4 ''stress-banner'' = Some b \<and> ''d-none'' \<in> set (classList b)) \<and>
            document st4 ''stress-timer'' = Some timer"
    if "active = JBool False"
    using ss b3 t3 assms(4,5) that
    by (auto simp: show_stress_def Let_def add_class_def)
  from shown hidden show ?thesis
    by (simp add: last)
qed

theorem stress_banner_and_countdown_witness:
  "tick_try ''10:00:00'' (Body sample_frame) (initial_page sample_document) =
     (fst (tick_try ''10:00:00'' (Body sample_frame) (initial_page sample_document)), None) \<and>
   document (initial_page sample_document) ''stress-banner'' =
     Some (blank\<lparr>classList := [''d-none'']\<rparr>) \<and>
   document (initial_page sample_document) ''stress-timer'' = Some blank \<and>
   get_prop sample_frame ''stress'' =
     Inr (JObj [(''active'', JBool True), (''seconds_left'', JNum (Fin 12))]) \<and>
   get_prop (js_or (JObj [(''active'', JBool True), (''seconds_left'', JNum (Fin 12))]) no_stress)
     ''active'' = Inr (JBool True) \<and>
   document (fst (tick_try ''10:00:00'' (Body sample_frame) (initial_page sample_document)))
     ''stress-timer'' = Some (blank\<lparr>textContent := ''12''\<rparr>) \<and>
   (\<exists>b. document (fst (tick_try ''10:00:00'' (Body sample_frame) (initial_page sample_document)))
           ''stress-banner'' = Some b \<and> ''d-none'' \<notin> set (classList b))"
proof -
  let ?P = "initial_page sample_document"
  let ?sv = "JObj [(''active'', JBool True), (''seconds_left'', JNum (Fin 12))]"
  have "snd (tick_try ''10:00:00'' (Body sample_frame) ?P) = None"
    by code_simp
  then have h1: "tick_try ''10:00:00'' (Body sample_frame) ?P =
      (fst (tick_try ''10:00:00'' (Body sample_frame) ?P), None)"
    by (simp add: prod_eq_iff)
  have h2: "document ?P ''stress-banner'' = Some (blank\<lparr>classList := [''d-none'']\<rparr>)"
    and h3: "document ?P ''stress-timer'' = Some blank"
    by (simp_all add: initial_page_def sample_document_def)
  have h4: "get_prop sample_frame ''stress'' = Inr ?sv"
    by (simp add: sample_frame_def)
  have h5: "get_prop (js_or ?sv no_stress) ''active'' = Inr (JBool True)"
    and secs: "get_prop (js_or ?sv no_stress) ''seconds_left'' = Inr (JNum (Fin 12))"
    by (simp_all add: js_or_def)
  have twelve: "ToString (JNum (Fin 12)) = Inr ''12''"
    by code_simp
  from stress_banner_and_countdown [OF h1 h2 h3 h4 h5] secs twelve
  have "document (fst (tick_try ''10:00:00'' (Body sample_frame) ?P)) ''stress-timer'' =
          Some (blank\<lparr>textContent := ''12''\<rparr>) \<and>
        (\<exists>b. document (fst (tick_try ''10:00:00'' (Body sample_frame) ?P)) ''stress-banner'' = Some b \<and>
             ''d-none'' \<notin> set (classList b))"
    by auto
  with h1 h2 h3 h4 h5 show ?thesis by blast
qed

subsection \<open>A page with a slot missing\<close>

lemma upd_none_twist:
  "i \<noteq> j \<Longrightarrow> (m(i := None))(j \<mapsto> x) = (m(j \<mapsto> x))(i := None)"
  "j \<noteq> i \<Longrightarrow> (m(i := None))(j \<mapsto> x) = (m(j \<mapsto> x))(i := None)"
  by (auto simp: fun_upd_twist)

lemma slot_local_append:
  "slot_local i (push_label ts)" "slot_local i (push_sensor s c)" "slot_local i (push_risk risk)"
  by (auto simp: slot_local_def push_label_def push_sensor_def push_risk_def split: sum.splits)

lemma slot_local_show_kpi: "slot_local i (show_kpi s c)"
  unfolding slot_local_def show_kpi_def setKPI_def set_element_def
  by (auto simp: upd_none_twist split: sum.splits option.splits)

lemma slot_local_show_state: "slot_local i (show_state data)"
  unfolding slot_local_def show_state_def set_element_def
  by (auto simp: upd_none_twist split: sum.splits option.splits prod.splits)

lemma slot_local_show_recommendation: "slot_local i (show_recommendation s risk d)"
  unfolding slot_local_def show_recommendation_def set_element_def
  by (auto simp: upd_none_twist split: sum.splits option.splits)

lemma slot_local_show_stress:
  "i \<noteq> ''stress-banner'' \<Longrightarrow> i \<noteq> ''stress-timer'' \<Longrightarrow> slot_local i (show_stress data)"
  unfolding slot_local_def show_stress_def Let_def set_element_def
  by (auto simp: upd_none_twist split: sum.splits option.splits)

lemma slot_local_exec:
  assumes "\<And>c. c \<in> set cs \<Longrightarrow> slot_local i c"
  shows "slot_local i (exec cs)"
  using assms
proof (induction cs)
  case Nil
  show ?case by (simp add: slot_local_def)
next
  case (Cons c cs)
  have c: "slot_local i c" and cs: "slot_local i (exec cs)"
    using Cons by simp_all
  show ?case
    unfolding slot_local_def
  proof (intro allI impI)
    fix st st'
    assume "exec (c # cs) st = (st', None)"
    then obtain st1 where 1: "c st = (st1, None)" and 2: "exec cs st1 = (st', None)"
      by (auto split: prod.splits option.splits)
    from c 1 have "c (st\<lparr>document := (document st)(i := None)\<rparr>) =
        (st1\<lparr>document := (document st1)(i := None)\<rparr>, None)"
      by (simp add: slot_local_def)
    moreover from cs 2 have "exec cs (st1\<lparr>document := (document st1)(i := None)\<rparr>) =
        (st'\<lparr>document := (document st')(i := None)\<rparr>, None)"
      by (simp add: slot_local_def)
    ultimately show "exec (c # cs) (st\<lparr>document := (document st)(i := None)\<rparr>) =
        (st'\<lparr>document := (document st')(i := None)\<rparr>, None)"
      by simp
  qed
qed

lemma slot_local_tick_try:
  assumes "i \<noteq> ''stress-banner''" and "i \<noteq> ''stress-timer''"
  shows "slot_local i (tick_try ts r)"
proof -
  have "slot_local i (exec (tick_stmts ts data s risk d))" for data s risk d
    by (rule slot_local_exec)
       (auto simp: tick_stmts_def append_stmts_def present_stmts_def slot_local_append
          slot_local_show_kpi slot_local_show_state slot_local_show_recommendation
          slot_local_show_stress assms)
  then show ?thesis
    by (auto simp: slot_local_def tick_try_def split: response.splits sum.splits)
qed

lemma show_stress_needs_both:
  assumes "document st ''stress-banner'' = None \<or> document st ''stress-timer'' = None"
    and "show_stress data st = (st', None)"
  shows "st' = st"
  using assms by (auto simp: show_stress_def Let_def split: sum.splits option.splits)

lemma slot_localD:
  "slot_local i c \<Longrightarrow> c st = (st', None) \<Longrightarrow> c (without_slot i st) = (without_slot i st', None)"
  by (simp add: slot_local_def without_slot_def)

lemma show_stress_one_absent:
  assumes "show_stress data st = (st', None)"
    and "i = ''stress-banner'' \<or> i = ''stress-timer''"
  shows "show_stress data (without_slot i st) = (without_slot i st, None)"
  using assms
  by (auto simp: show_stress_def without_slot_def Let_def split: sum.splits option.splits)

lemma show_recommendation_transfer:
  assumes "show_recommendation s risk d a = (a', None)"
    and "document b ''recommendation'' = document a ''recommendation''"
  shows "\<exists>b'. show_recommendation s risk d b = (b', None) \<and>
           labels b' = labels b \<and> sensorsHist b' = sensorsHist b \<and> riskHist b' = riskHist b \<and>
           document b' ''recommendation'' = document a' ''recommendation'' \<and>
           (\<forall>j. j \<noteq> ''recommendation'' \<longrightarrow> document b' j = document b j)"
  using assms
  by (auto simp: show_recommendation_def set_element_def split: option.splits sum.splits)

lemma without_slot_fields [simp]:
  "labels (without_slot i st) = labels st"
  "sensorsHist (without_slot i st) = sensorsHist st"
  "riskHist (without_slot i st) = riskHist st"
  "console (without_slot i st) = console st"
  "document (without_slot i st) = (document st)(i := None)"
  by (simp_all add: without_slot_def)

text \<open>
  Claim C9, as amended. For a tick that completes, on the page without one element the
  tick completes as well and leaves the history and every other element as on the full
  page; only the write to the missing element is skipped. This holds as it stands for
  every element other than the banner and the countdown slot (a KPI slot, the status
  slot, the recommendation slot). The banner and the countdown slot are written only
  together: on the page without one of them the history and every element other than
  these two are still as on the full page, but the other of the two is left as it was
  before the tick.
\<close>

theorem absent_slot_skips_only_its_write:
  assumes "tick_try ts (Body data) st = (st', None)"
  shows "(i \<noteq> ''stress-banner'' \<and> i \<noteq> ''stress-timer'' \<longrightarrow>
            tick_try ts (Body data) (without_slot i st) = (without_slot i st', None)) \<and>
         (document st ''stress-banner'' = None \<or> document st ''stress-timer'' = None \<longrightarrow>
            document st' ''stress-banner'' = document st ''stress-banner'' \<and>
            document st' ''stress-timer'' = document st ''stress-timer'') \<and>
         (i = ''stress-banner'' \<or> i = ''stress-timer'' \<longrightarrow>
            (\<exists>st''. tick_try ts (Body data) (without_slot i st) = (st'', None) \<and>
               labels st'' = labels st' \<and> sensorsHist st'' = sensorsHist st' \<and>
               riskHist st'' = riskHist st' \<and>
               (\<forall>j. j \<noteq> ''stress-banner'' \<and> j \<noteq> ''stress-timer'' \<longrightarrow>
                  document st'' j = document st' j) \<and>
               document st'' ''stress-banner'' = document (without_slot i st) ''stress-banner'' \<and>
               document st'' ''stress-timer'' = document (without_slot i st) ''stress-timer''))"
proof -
  from assms obtain s risk d st1 st2 st3 st4 where
    loc: "frame_locals data = Inr (s, risk, d)"
    and a: "exec (append_stmts ts s risk) st = (st1, None)"
    and k: "exec (map (show_kpi s) channels) st1 = (st2, None)"
    and sh: "show_state data st2 = (st3, None)"
    and ss: "show_stress data st3 = (st4, None)"
    and sr: "show_recommendation s risk d st4 = (st', None)"
    by (rule tick_complete_chain)
  have same: "document st3 j = document st j" if "j = ''stress-banner'' \<or> j = ''stress-timer''" for j
  proof -
    have "document st3 j = document st2 j"
      using show_state_document [of j data st2] that unfolding sh by auto
    also have "\<dots> = document st1 j"
      using show_kpis_document [of j s channels st1] kpi_ids_other that unfolding k by auto
    finally show ?thesis using append_stmts_ok(5) [OF a] by simp
  qed
  have last: "document st' j = document st4 j" if "j = ''stress-banner'' \<or> j = ''stress-timer''" for j
    using show_recommendation_document [of j s risk d st4] that unfolding sr by auto
  have part1: "tick_try ts (Body data) (without_slot i st) = (without_slot i st', None)"
    if "i \<noteq> ''stress-banner'' \<and> i \<noteq> ''stress-timer''"
  proof -
    from that have "slot_local i (tick_try ts (Body data))"
      by (simp add: slot_local_tick_try)
    then show ?thesis using assms by (rule slot_localD)
  qed
  have part2: "document st' ''stress-banner'' = document st ''stress-banner'' \<and>
            document st' ''stress-timer'' = document st ''stress-timer''"
    if absent: "document st ''stress-banner'' = None \<or> document st ''stress-timer'' = None"
  proof -
    from absent have "document st3 ''stress-banner'' = None \<or> document st3 ''stress-timer'' = None"
      by (simp add: same)
    then have "st4 = st3" using ss by (rule show_stress_needs_both)
    then show ?thesis by (simp add: same last)
  qed
  have part3: "\<exists>st''. tick_try ts (Body data) (without_slot i st) = (st'', None) \<and>
               labels st'' = labels st' \<and> sensorsHist st'' = sensorsHist st' \<and>
               riskHist st'' = riskHist st' \<and>
               (\<forall>j. j \<noteq> ''stress-banner'' \<and> j \<noteq> ''stress-timer'' \<longrightarrow>
                  document st'' j = document st' j) \<and>
               document st'' ''stress-banner'' = document (without_slot i st) ''stress-banner'' \<and>
               document st'' ''stress-timer'' = document (without_slot i st) ''stress-timer''"
    if pair: "i = ''stress-banner'' \<or> i = ''stress-timer''"
  proof -
    have "slot_local i (exec (append_stmts ts s risk))"
      by (rule slot_local_exec) (auto simp: append_stmts_def slot_local_append)
    then have a': "exec (append_stmts ts s risk) (without_slot i st) = (without_slot i st1, None)"
      using a by (rule slot_localD)
    have "slot_local i (exec (map (show_kpi s) channels))"
      by (rule slot_local_exec) (auto simp: slot_local_show_kpi)
    then have k': "exec (map (show_kpi s) channels) (without_slot i st1) = (without_slot i st2, None)"
      using k by (rule slot_localD)
    have sh': "show_state data (without_slot i st2) = (without_slot i st3, None)"
      using slot_local_show_state sh by (rule slot_localD)
    have ss': "show_stress data (without_slot i st3) = (without_slot i st3, None)"
      using ss pair by (rule show_stress_one_absent)
    have rec3: "document (without_slot i st3) ''recommendation'' = document st4 ''recommendation''"
      using show_stress_document [of "''recommendation''" data st3] pair unfolding ss by auto
    from show_recommendation_transfer [OF sr rec3] obtain st'' where
      sr': "show_recommendation s risk d (without_slot i st3) = (st'', None)"
      and h: "labels st'' = labels st3" "sensorsHist st'' = sensorsHist st3"
        "riskHist st'' = riskHist st3"
      and r: "document st'' ''recommendation'' = document st' ''recommendation''"
      and o: "\<And>j. j \<noteq> ''recommendation'' \<Longrightarrow> document st'' j = document (without_slot i st3) j"
      by auto
    have run: "tick_try ts (Body data) (without_slot i st) = (st'', None)"
      using a' k' sh' ss' sr'
      by (simp add: tick_try_def loc tick_stmts_def present_stmts_def exec_append)
    have h4: "labels st4 = labels st3" "sensorsHist st4 = sensorsHist st3" "riskHist st4 = riskHist st3"
      using show_stress_fields [of data st3] unfolding ss by simp_all
    have h': "labels st' = labels st4" "sensorsHist st' = sensorsHist st4" "riskHist st' = riskHist st4"
      using show_recommendation_fields [of s risk d st4] unfolding sr by simp_all
    have others: "document st'' j = document st' j"
      if j: "j \<noteq> ''stress-banner'' \<and> j \<noteq> ''stress-timer''" for j
    proof (cases "j = ''recommendation''")
      case True
      with r show ?thesis by simp
    next
      case False
      then have "document st'' j = document (without_slot i st3) j" by (rule o)
      also have "\<dots> = document st3 j" using j pair by auto
      also have "\<dots> = document st4 j"
        using show_stress_document [of j data st3] j unfolding ss by auto
      also have "\<dots> = document st' j"
        using show_recommendation_document [of j s risk d st4] False unfolding sr by auto
      finally show ?thesis .
    qed
    have pairs: "document st'' j = document (without_slot i st) j"
      if j: "j = ''stress-banner'' \<or> j = ''stress-timer''" for j
    proof -
      from j have "j \<noteq> ''recommendation''" by auto
      then have "document st'' j = document (without_slot i st3) j" by (rule o)
      then show ?thesis using same [OF j] by simp
    qed
    from run h h4 h' others pairs show ?thesis by auto
  qed
  from part1 part2 part3 show ?thesis by blast
qed


theorem absent_slot_skips_only_its_write_witness:
  "tick_try ''10:00:00'' (Body sample_frame) (initial_page sample_document) =
     (fst (tick_try ''10:00:00'' (Body sample_frame) (initial_page sample_document)), None) \<and>
   tick_try ''10:00:00'' (Body sample_frame)
      (without_slot ''recommendation'' (initial_page sample_document)) =
     (without_slot ''recommendation''
        (fst (tick_try ''10:00:00'' (Body sample_frame) (initial_page sample_document))), None) \<and>
   tick_try ''10:00:00'' (Body sample_frame)
      (without_slot ''stress-timer'' (initial_page sample_document)) =
     (fst (tick_try ''10:00:00'' (Body sample_frame)
        (without_slot ''stress-timer'' (initial_page sample_document))), None) \<and>
   document (without_slot ''stress-timer'' (initial_page sample_document)) ''stress-timer'' = None \<and>
   document (fst (tick_try ''10:00:00'' (Body sample_frame)
        (without_slot ''stress-timer'' (initial_page sample_document)))) ''stress-banner'' =
     document (without_slot ''stress-timer'' (initial_page sample_document)) ''stress-banner'' \<and>
   document (fst (tick_try ''10:00:00'' (Body sample_frame)
        (without_slot ''stress-timer'' (initial_page sample_document)))) ''recommendation'' =
     document (fst (tick_try ''10:00:00'' (Body sample_frame) (initial_page sample_document)))
       ''recommendation'' \<and>
   labels (fst (tick_try ''10:00:00'' (Body sample_frame)
        (without_slot ''stress-timer'' (initial_page sample_document)))) =
     labels (fst (tick_try ''10:00:00'' (Body sample_frame) (initial_page sample_document)))"
proof -
  let ?P = "initial_page sample_document"
  let ?Q = "without_slot ''stress-timer'' (initial_page sample_document)"
  have "snd (tick_try ''10:00:00'' (Body sample_frame) ?P) = None"
    by code_simp
  then have h1: "tick_try ''10:00:00'' (Body sample_frame) ?P =
      (fst (tick_try ''10:00:00'' (Body sample_frame) ?P), None)"
    by (simp add: prod_eq_iff)
  have "snd (tick_try ''10:00:00'' (Body sample_frame) ?Q) = None"
    by code_simp
  then have h2: "tick_try ''10:00:00'' (Body sample_frame) ?Q =
      (fst (tick_try ''10:00:00'' (Body sample_frame) ?Q), None)"
    by (simp add: prod_eq_iff)
  have ne: "''recommendation'' \<noteq> ''stress-banner'' \<and> ''recommendation'' \<noteq> ''stress-timer''"
    by simp
  have q: "document ?Q ''stress-timer'' = None"
    by (simp add: without_slot_def)
  from absent_slot_skips_only_its_write [OF h1, of "''recommendation''"] ne
  have a: "tick_try ''10:00:00'' (Body sample_frame) (without_slot ''recommendation'' ?P) =
      (without_slot ''recommendation'' (fst (tick_try ''10:00:00'' (Body sample_frame) ?P)), None)"
    by blast
  from absent_slot_skips_only_its_write [OF h2, of "''recommendation''"] q
  have b: "document (fst (tick_try ''10:00:00'' (Body sample_frame) ?Q)) ''stress-banner'' =
      document ?Q ''stress-banner''"
    by blast
  from absent_slot_skips_only_its_write [OF h1, of "''stress-timer''"]
  obtain st'' where
    "tick_try ''10:00:00'' (Body sample_frame) ?Q = (st'', None)"
    "labels st'' = labels (fst (tick_try ''10:00:00'' (Body sample_frame) ?P))"
    "\<forall>j. j \<noteq> ''stress-banner'' \<and> j \<noteq> ''stress-timer'' \<longrightarrow>
       document st'' j = document (fst (tick_try ''10:00:00'' (Body sample_frame) ?P)) j"
    by blast
  with h2 ne have c: "document (fst (tick_try ''10:00:00'' (Body sample_frame) ?Q)) ''recommendation'' =
      document (fst (tick_try ''10:00:00'' (Body sample_frame) ?P)) ''recommendation''"
    and d: "labels (fst (tick_try ''10:00:00'' (Body sample_frame) ?Q)) =
      labels (fst (tick_try ''10:00:00'' (Body sample_frame) ?P))"
    by auto
  from h1 a h2 q b c d show ?thesis by blast
qed

text \<open>
  Claim C9 as stated fails for the banner and the countdown slot: with the stress
  scenario active, the banner of the full page is shown, and on the same page without
  the countdown slot the banner stays hidden.
\<close>

theorem banner_depends_on_timer_counterexample:
  "map_option classList
     (document (tick (initial_page sample_document) ''10:00:00'' (Body sample_frame))
        ''stress-banner'') = Some [] \<and>
   map_option classList
     (document (tick (without_slot ''stress-timer'' (initial_page sample_document)) ''10:00:00''
        (Body sample_frame)) ''stress-banner'') = Some [''d-none'']"
  by code_simp

subsection \<open>The text of a KPI\<close>

lemma digit_char_table:
  "list_all (\<lambda>j. is_digit (digit_char j) \<and> digit_val (digit_char j) = j) [0, 1, 2, 3, 4, 5, 6, 7, 8, 9]"
  by (simp add: digit_char_def is_digit_def digit_val_def)

lemma digit_char_digit:
  assumes "0 \<le> j" and "j < 10"
  shows "is_digit (digit_char j)" and "digit_val (digit_char j) = j"
proof -
  from assms have "j \<in> set [0, 1, 2, 3, 4, 5, 6, 7, 8, 9]"
    by (simp; presburger)
  with digit_char_table show "is_digit (digit_char j)" and "digit_val (digit_char j) = j"
    unfolding list_all_iff by blast+
qed

lemma digit_char_negative: "j < 0 \<Longrightarrow> digit_char j = digit_char 0"
  by (simp add: digit_char_def)

lemma is_digit_digit_char: "j < 10 \<Longrightarrow> is_digit (digit_char j)"
  using digit_char_digit(1) [of j] digit_char_digit(1) [of 0] digit_char_negative [of j]
  by (cases "0 \<le> j") simp_all

lemma dec_digits_digits: "dec_digits n \<noteq> [] \<and> list_all is_digit (dec_digits n)"
proof (induction n rule: dec_digits.induct)
  case (1 n)
  show ?case
  proof (cases "n < 10")
    case True
    then show ?thesis by (simp add: dec_digits.simps [of n] is_digit_digit_char)
  next
    case False
    have "n mod 10 < 10" by simp
    with False 1 show ?thesis
      by (simp add: dec_digits.simps [of n] is_digit_digit_char)
  qed
qed

lemma digits_val_snoc: "digits_val b (ds @ [c]) = b * digits_val b ds + digit_val c"
  by (simp add: digits_val_def)

lemma digits_val_dec_digits: "0 \<le> n \<Longrightarrow> digits_val 10 (dec_digits n) = n"
proof (induction n rule: dec_digits.induct)
  case (1 n)
  show ?case
  proof (cases "n < 10")
    case True
    with 1(2) show ?thesis by (simp add: dec_digits.simps [of n] digits_val_def digit_char_digit)
  next
    case False
    then have "digits_val 10 (dec_digits (n div 10)) = n div 10"
      using 1 by simp
    moreover have "digit_val (digit_char (n mod 10)) = n mod 10"
      by (simp add: digit_char_digit)
    ultimately show ?thesis
      using False by (simp add: dec_digits.simps [of n] digits_val_snoc)
  qed
qed

lemma digits_val_zeros: "digits_val 10 (replicate k CHR ''0'' @ ds) = digits_val 10 ds"
proof -
  have "foldl (\<lambda>a c. 10 * a + digit_val c) 0 (replicate k CHR ''0'') = 0"
  proof (induction k)
    case 0
    show ?case by simp
  next
    case (Suc k)
    have "replicate (Suc k) CHR ''0'' = replicate k CHR ''0'' @ ''0''"
      by (simp add: replicate_append_same)
    with Suc show ?case by (simp add: digit_val_def del: replicate_Suc)
  qed
  then show ?thesis by (simp add: digits_val_def)
qed

lemma is_digit_not_sign: "is_digit c \<Longrightarrow> c \<noteq> CHR ''-'' \<and> c \<noteq> CHR ''.''"
  by (auto simp: is_digit_def)

lemma dec_digits_head: "dec_digits n \<noteq> []" "is_digit (hd (dec_digits n))"
  using dec_digits_digits [of n] by (cases "dec_digits n"; simp)+

lemma pos_toString_head: "pos_toString x \<noteq> [] \<and> is_digit (hd (pos_toString x))"
proof -
  obtain s k n where d: "digits_from 1 x = (s, k, n)"
    by (cases "digits_from 1 x") auto
  have zero: "is_digit CHR ''0''" by (simp add: is_digit_def)
  have tk: "take m (dec_digits s) \<noteq> [] \<and> hd (take m (dec_digits s)) = hd (dec_digits s)"
    if "0 < m" for m
    using that dec_digits_head(1) [of s] by (cases "dec_digits s"; cases m) simp_all
  show ?thesis
    using dec_digits_head [of s] zero tk [of "nat n"] tk [of 1]
    by (auto simp: pos_toString_def d Let_def)
qed

lemma signed_not_dashes:
  assumes "t \<noteq> []" and "is_digit (hd t)" and "s = [] \<or> s = ''-''"
  shows "s @ t \<noteq> ''--''"
  using assms is_digit_not_sign [of "hd t"] by (cases t) auto

lemma fixed_shape:
  assumes "ip \<noteq> []" and "list_all is_digit ip" and "list_all is_digit fp" and "length fp = k"
    and "s = [] \<or> s = ''-''"
  shows "spec_fixed_decimals k (s @ ip @ (if k = 0 then [] else ''.'' @ fp))"
proof -
  let ?rest = "if k = 0 then [] else ''.'' @ fp"
  have hd: "is_digit (hd ip)" using assms(1,2) by (cases ip) simp_all
  then have "take 1 (ip @ ?rest) \<noteq> ''-''"
    using assms(1) is_digit_not_sign [of "hd ip"] by (cases ip) auto
  then have u: "(if take 1 (s @ ip @ ?rest) = ''-'' then drop 1 (s @ ip @ ?rest) else s @ ip @ ?rest)
      = ip @ ?rest"
    using assms(5) by auto
  have all: "\<And>x. x \<in> set ip \<Longrightarrow> is_digit x"
    using assms(2) by (simp add: list_all_iff)
  have point: "\<not> is_digit CHR ''.''" by (simp add: is_digit_def)
  have tw: "takeWhile is_digit (ip @ ?rest) = ip"
    using all point by (simp add: takeWhile_append2)
  have dw: "dropWhile is_digit (ip @ ?rest) = ?rest"
    using all point by (simp add: dropWhile_append2)
  show ?thesis
    unfolding spec_fixed_decimals_def Let_def u tw dw
    using assms(1,3,4) by auto
qed

lemma toFixed_small:
  assumes "0 \<le> f" and "f \<le> 100" and "\<bar>q\<bar> < 10 ^ 21"
  shows "\<exists>ip fp. toFixed (Fin q) f =
             Inr ((if q < 0 then ''-'' else []) @ ip @ (if f = 0 then [] else ''.'' @ fp)) \<and>
           ip \<noteq> [] \<and> list_all is_digit ip \<and> list_all is_digit fp \<and> length fp = nat f \<and>
           digits_val 10 (ip @ fp) = \<lfloor>\<bar>q\<bar> * 10 ^ nat f + 1 / 2\<rfloor>"
proof -
  define n where "n = \<lfloor>\<bar>q\<bar> * 10 ^ nat f + 1 / 2\<rfloor>"
  define m where "m = dec_digits n"
  define m' where "m' = (if length m \<le> nat f then replicate (nat f + 1 - length m) CHR ''0'' @ m else m)"
  have n0: "0 \<le> n" unfolding n_def by simp
  have m: "m \<noteq> []" "list_all is_digit m" "digits_val 10 m = n"
    using dec_digits_digits [of n] digits_val_dec_digits [OF n0] by (simp_all add: m_def)
  have zero: "is_digit CHR ''0''" by (simp add: is_digit_def)
  have m': "list_all is_digit m'" "nat f < length m'" "digits_val 10 m' = n"
    using m zero by (auto simp: m'_def digits_val_zeros list_all_iff)
  have eq: "toFixed (Fin q) f =
      Inr ((if q < 0 then ''-'' else []) @
           (if f = 0 then m else take (length m' - nat f) m' @ ''.'' @ drop (length m' - nat f) m'))"
    using assms by (simp add: toFixed_def Let_def n_def m_def m'_def)
  show ?thesis
  proof (cases "f = 0")
    case True
    with eq m show ?thesis
      by (intro exI [of _ m] exI [of _ "[]"]) (simp add: n_def)
  next
    case False
    let ?ip = "take (length m' - nat f) m'" and ?fp = "drop (length m' - nat f) m'"
    have "?ip \<noteq> []" using m'(2) by auto
    moreover have "list_all is_digit ?ip" "list_all is_digit ?fp"
      using m'(1) by (auto simp: list_all_iff dest: in_set_takeD in_set_dropD)
    moreover have "length ?fp = nat f" using m'(2) by simp
    moreover have "digits_val 10 (?ip @ ?fp) = n" using m'(3) by simp
    ultimately show ?thesis
      using eq False by (intro exI [of _ ?ip] exI [of _ ?fp]) (simp add: n_def)
  qed
qed

lemma toFixed_not_dashes: "toFixed x f \<noteq> Inr ''--''"
proof (cases "f < 0 \<or> 100 < f")
  case True
  then show ?thesis by (simp add: toFixed_def)
next
  case range: False
  show ?thesis
  proof (cases x)
    case (Fin q)
    show ?thesis
    proof (cases "\<bar>q\<bar> < 10 ^ 21")
      case True
      from range have "0 \<le> f" "f \<le> 100" by simp_all
      from toFixed_small [OF this True] obtain ip fp where
        eq: "toFixed (Fin q) f =
               Inr ((if q < 0 then ''-'' else []) @ ip @ (if f = 0 then [] else ''.'' @ fp))"
        and ip: "ip \<noteq> []" "list_all is_digit ip"
        by blast
      have "is_digit (hd (ip @ (if f = 0 then [] else ''.'' @ fp)))"
        using ip by (cases ip) simp_all
      then have "(if q < 0 then ''-'' else []) @ (ip @ (if f = 0 then [] else ''.'' @ fp)) \<noteq> ''--''"
        using ip(1) by (intro signed_not_dashes) auto
      then show ?thesis by (simp add: Fin eq)
    next
      case False
      then have big: "10 ^ 21 \<le> \<bar>q\<bar>" by simp
      then have pos: "\<bar>q\<bar> \<noteq> 0" "\<not> \<bar>q\<bar> < 0" by auto
      have "toFixed (Fin q) f = Inr ((if q < 0 then ''-'' else []) @ pos_toString \<bar>q\<bar>)"
        using range big pos by (simp add: toFixed_def Let_def)
      moreover have "(if q < 0 then ''-'' else []) @ pos_toString \<bar>q\<bar> \<noteq> ''--''"
        using pos_toString_head [of "\<bar>q\<bar>"] by (intro signed_not_dashes) auto
      ultimately show ?thesis by (simp add: Fin)
    qed
  qed (use range in \<open>simp_all add: toFixed_def\<close>)
qed

text \<open>
  Claim C5, as amended. \<open>fmt v d\<close> returns the fallback \<^verbatim>\<open>--\<close> exactly when \<open>v\<close> is
  \<^verbatim>\<open>null\<close>, \<^verbatim>\<open>undefined\<close> or \<open>NaN\<close>. When \<open>v\<close> is a finite number of magnitude
  below \<open>10 ^ 21\<close> and \<open>d\<close> is between 0 and 100, it returns \<open>v\<close> with exactly \<open>d\<close>
  decimal places: a minus sign when \<open>v\<close> is negative, then digits, with a point before
  the last \<open>d\<close> of them when \<open>d\<close> is not 0, and these digits read as a number are
  \<open>\<bar>v\<bar> * 10 ^ d\<close> rounded to the nearest integer, a half upwards.
\<close>

theorem fmt_fallback_and_fixed:
  "(fmt v d = Inr ''--'' \<longleftrightarrow> v = JNull \<or> v = JUndefined \<or> v = JNum NaN) \<and>
   (0 \<le> d \<and> d \<le> 100 \<and> \<bar>q\<bar> < 10 ^ 21 \<longrightarrow>
      (\<exists>str ip fp.
         fmt (JNum (Fin q)) d = Inr str \<and> spec_fixed_decimals (nat d) str \<and>
         str = (if q < 0 then ''-'' else []) @ ip @ (if d = 0 then [] else ''.'' @ fp) \<and>
         length fp = nat d \<and> digits_val 10 (ip @ fp) = \<lfloor>\<bar>q\<bar> * 10 ^ nat d + 1 / 2\<rfloor>))"
proof (rule conjI)
  have "bindE (ToNumber v) (\<lambda>x. toFixed x d) \<noteq> Inr ''--''"
    using toFixed_not_dashes by (cases "ToNumber v") (simp_all add: bindE_def)
  then show "fmt v d = Inr ''--'' \<longleftrightarrow> v = JNull \<or> v = JUndefined \<or> v = JNum NaN"
    by (auto simp: fmt_def)
next
  show "0 \<le> d \<and> d \<le> 100 \<and> \<bar>q\<bar> < 10 ^ 21 \<longrightarrow>
      (\<exists>str ip fp.
         fmt (JNum (Fin q)) d = Inr str \<and> spec_fixed_decimals (nat d) str \<and>
         str = (if q < 0 then ''-'' else []) @ ip @ (if d = 0 then [] else ''.'' @ fp) \<and>
         length fp = nat d \<and> digits_val 10 (ip @ fp) = \<lfloor>\<bar>q\<bar> * 10 ^ nat d + 1 / 2\<rfloor>)"
  proof
    assume a: "0 \<le> d \<and> d \<le> 100 \<and> \<bar>q\<bar> < 10 ^ 21"
    then have "0 \<le> d" "d \<le> 100" "\<bar>q\<bar> < 10 ^ 21" by simp_all
    from toFixed_small [OF this] obtain ip fp where
      eq: "toFixed (Fin q) d =
             Inr ((if q < 0 then ''-'' else []) @ ip @ (if d = 0 then [] else ''.'' @ fp))"
      and ip: "ip \<noteq> []" "list_all is_digit ip" and fp: "list_all is_digit fp" "length fp = nat d"
      and val: "digits_val 10 (ip @ fp) = \<lfloor>\<bar>q\<bar> * 10 ^ nat d + 1 / 2\<rfloor>"
      by blast
    have "spec_fixed_decimals (nat d) ((if q < 0 then ''-'' else []) @ ip @
            (if nat d = 0 then [] else ''.'' @ fp))"
      using ip fp by (intro fixed_shape) auto
    moreover have "nat d = 0 \<longleftrightarrow> d = 0" using a by auto
    ultimately have "spec_fixed_decimals (nat d) ((if q < 0 then ''-'' else []) @ ip @
            (if d = 0 then [] else ''.'' @ fp))"
      by simp
    moreover have "fmt (JNum (Fin q)) d = toFixed (Fin q) d"
      by (simp add: fmt_def bindE_def)
    ultimately show "\<exists>str ip fp.
         fmt (JNum (Fin q)) d = Inr str \<and> spec_fixed_decimals (nat d) str \<and>
         str = (if q < 0 then ''-'' else []) @ ip @ (if d = 0 then [] else ''.'' @ fp) \<and>
         length fp = nat d \<and> digits_val 10 (ip @ fp) = \<lfloor>\<bar>q\<bar> * 10 ^ nat d + 1 / 2\<rfloor>"
      using eq fp(2) val by auto
  qed
qed

theorem fmt_fallback_and_fixed_witness:
  "(0 \<le> (1::int) \<and> (1::int) \<le> 100 \<and> \<bar>12345 / 100 :: rat\<bar> < 10 ^ 21) \<and>
   (\<exists>str ip fp.
      fmt (JNum (Fin (12345 / 100))) 1 = Inr str \<and> spec_fixed_decimals (nat 1) str \<and>
      str = (if (12345 / 100 :: rat) < 0 then ''-'' else []) @ ip @
            (if (1::int) = 0 then [] else ''.'' @ fp) \<and>
      length fp = nat 1 \<and> digits_val 10 (ip @ fp) = \<lfloor>\<bar>12345 / 100 :: rat\<bar> * 10 ^ nat 1 + 1 / 2\<rfloor>) \<and>
   fmt (JNum (Fin (12345 / 100))) 1 = Inr ''123.5'' \<and>
   fmt JNull 1 = Inr ''--''"
proof -
  have h: "0 \<le> (1::int) \<and> (1::int) \<le> 100 \<and> \<bar>12345 / 100 :: rat\<bar> < 10 ^ 21"
    by simp
  have e: "fmt (JNum (Fin (12345 / 100))) 1 = Inr ''123.5''"
    by code_simp
  from fmt_fallback_and_fixed [of JNull 1 "12345 / 100"] h e
  show ?thesis by blast
qed

text \<open>
  Claim C5 as stated fails in its second half: a value that is not \<^verbatim>\<open>null\<close>,
  \<^verbatim>\<open>undefined\<close> or \<open>NaN\<close> need not come out with \<open>d\<close> decimal places. Infinity
  (which JSON text such as \<^verbatim>\<open>1e999\<close> parses to) is rendered as \<^verbatim>\<open>Infinity\<close>, and a
  string that is not a numeric literal as \<^verbatim>\<open>NaN\<close>.
\<close>

theorem fmt_not_fixed_counterexample:
  "JNum PInf \<noteq> JNull \<and> JNum PInf \<noteq> JUndefined \<and> JNum PInf \<noteq> JNum NaN \<and>
   fmt (JNum PInf) 2 = Inr ''Infinity'' \<and> \<not> spec_fixed_decimals 2 ''Infinity'' \<and>
   fmt (JStr ''abc'') 1 = Inr ''NaN'' \<and> \<not> spec_fixed_decimals 1 ''NaN''"
  by code_simp

end
